theory Spec2Isabelle
  imports Complex_Main
begin

section \<open>Neon Runner 3D: the per-frame tick of \<^verbatim>\<open>src/App.jsx\<close>\<close>

text \<open>
  The file \<^verbatim>\<open>src/App.jsx\<close> holds two builds of the game, each with its own
  \<^verbatim>\<open>GameLoop\<close>: the current build (lines 1 to 727: bosses, enemy bullets, jumping) and
  the "STABLE local build" (lines 728 to 1342). Both are modelled: \<open>tickA\<close> is the
  state updater of the first, \<open>tickB\<close> that of the second.

  JavaScript numbers are IEEE doubles. Counters that only ever hold integers (wave,
  level, xp, score, ids, pierce, difficulty) are modelled as \<open>int\<close>; every other
  number is modelled as a \<open>real\<close>, that is, rounding, infinities and NaN are left out.

  Everything the updater reads from outside the previous state is gathered in the record
  \<open>Input\<close>: the frame delta, the key map, the pointer-lock flag, the look angles, the
  clock and the successive results of \<^verbatim>\<open>Math.random()\<close>. The camera and the avatar
  refs that the updater writes are not part of the session state and are left out.
\<close>

subsection \<open>Vectors\<close>

text \<open>
  \<^verbatim>\<open>THREE.Vector3\<close> comes from the three.js dependency, which is not part of the
  repository. The operations the tick calls are modelled after the library: a vector
  method that mutates its receiver becomes a function returning the new vector.
\<close>

record Vector3 =
  vx :: real
  vy :: real
  vz :: real

definition vec3 :: "real \<Rightarrow> real \<Rightarrow> real \<Rightarrow> Vector3" where
  "vec3 x y z = \<lparr>vx = x, vy = y, vz = z\<rparr>"

definition lengthSq :: "Vector3 \<Rightarrow> real" where
  "lengthSq v = vx v * vx v + vy v * vy v + vz v * vz v"

definition length_v :: "Vector3 \<Rightarrow> real" where
  "length_v v = sqrt (lengthSq v)"

definition multiplyScalar :: "Vector3 \<Rightarrow> real \<Rightarrow> Vector3" where
  "multiplyScalar v k = \<lparr>vx = vx v * k, vy = vy v * k, vz = vz v * k\<rparr>"

definition divideScalar :: "Vector3 \<Rightarrow> real \<Rightarrow> Vector3" where
  "divideScalar v k = multiplyScalar v (1 / k)"

text \<open>\<^verbatim>\<open>normalize() { return this.divideScalar(this.length() || 1) }\<close>\<close>

definition normalize_v :: "Vector3 \<Rightarrow> Vector3" where
  "normalize_v v = divideScalar v (if length_v v = 0 then 1 else length_v v)"

definition setLength :: "Vector3 \<Rightarrow> real \<Rightarrow> Vector3" where
  "setLength v l = multiplyScalar (normalize_v v) l"

definition add_v :: "Vector3 \<Rightarrow> Vector3 \<Rightarrow> Vector3" where
  "add_v a b = \<lparr>vx = vx a + vx b, vy = vy a + vy b, vz = vz a + vz b\<rparr>"

definition sub_v :: "Vector3 \<Rightarrow> Vector3 \<Rightarrow> Vector3" where
  "sub_v a b = \<lparr>vx = vx a - vx b, vy = vy a - vy b, vz = vz a - vz b\<rparr>"

definition addScaledVector :: "Vector3 \<Rightarrow> Vector3 \<Rightarrow> real \<Rightarrow> Vector3" where
  "addScaledVector a v k = \<lparr>vx = vx a + vx v * k, vy = vy a + vy v * k, vz = vz a + vz v * k\<rparr>"

definition distanceTo :: "Vector3 \<Rightarrow> Vector3 \<Rightarrow> real" where
  "distanceTo a b = sqrt (lengthSq (sub_v a b))"

text \<open>
  \<^verbatim>\<open>v.applyEuler(new THREE.Euler(p, y, 0, "YXZ"))\<close>: rotate about the x axis by the
  pitch \<open>p\<close>, then about the y axis by the yaw \<open>y\<close>.
\<close>

definition applyEuler :: "real \<Rightarrow> real \<Rightarrow> Vector3 \<Rightarrow> Vector3" where
  "applyEuler p y v =
     (let y1 = vy v * cos p - vz v * sin p;
          z1 = vy v * sin p + vz v * cos p
      in \<lparr>vx = vx v * cos y + z1 * sin y, vy = y1, vz = z1 * cos y - vx v * sin y\<rparr>)"

subsection \<open>The data model\<close>

record Player =
  pos :: Vector3
  velY :: real
  speed :: real
  dashCooldown :: real
  maxHp :: real
  hp :: real
  magnet :: real
  damage :: real
  firerate :: real
  bulletSpeed :: real
  pierce :: int

text \<open>
  An enemy object of the first build has all the fields below when it is a boss and the
  first seven when it is not; an enemy of the second build has neither \<^verbatim>\<open>maxHp\<close> nor
  \<^verbatim>\<open>isBoss\<close>. A field that the object does not have is never read by the code that
  handles the object; the model gives it the value \<open>0\<close> (or \<open>False\<close>, as the
  missing \<^verbatim>\<open>isBoss\<close> is falsy).
\<close>

record Enemy =
  eid :: int
  epos :: Vector3
  ehp :: real
  emaxHp :: real
  eradius :: real
  espeed :: real
  isBoss :: bool
  evelY :: real
  jumpCooldown :: real
  leapTime :: real
  leapDir :: Vector3
  shootCooldown :: real

record Bullet =
  bid :: int
  bpos :: Vector3
  bvel :: Vector3
  blife :: real
  pierceLeft :: int
  bdamage :: real

record EnemyBullet =
  ebid :: int
  ebpos :: Vector3
  ebvel :: Vector3
  eblife :: real
  ebdamage :: real

datatype PickupType = Xp | Heart | Shield

record Pickup =
  pid :: int
  ppos :: Vector3
  ttl :: real
  ptype :: PickupType

text \<open>
  The session state of the first build. The second build's state has no
  \<^verbatim>\<open>eBullets\<close>, \<^verbatim>\<open>bossActive\<close>, \<^verbatim>\<open>bossDefeatedAtWave\<close>, \<^verbatim>\<open>hitFlash\<close> and no
  \<^verbatim>\<open>player.velY\<close>; its updater copies the previous state with a spread and never
  touches them, which is what \<open>tickB\<close> does with these fields.
\<close>

record GameState =
  playing :: bool
  paused :: bool
  gameOver :: bool
  wave :: int
  time :: real
  score :: int
  level :: int
  xp :: int
  player :: Player
  enemies :: "Enemy list"
  bullets :: "Bullet list"
  eBullets :: "EnemyBullet list"
  pickups :: "Pickup list"
  nextId :: int
  lastShot :: real
  difficulty :: int
  bossActive :: bool
  bossDefeatedAtWave :: int
  hitFlash :: real

text \<open>
  What a frame reads from outside the state. \<open>random inp k\<close> is the result of the
  \<open>k\<close>-th call of \<^verbatim>\<open>Math.random()\<close> made during the frame, counting from \<open>0\<close>.
\<close>

record Input =
  dtx :: real
  keyW :: bool
  keyS :: bool
  keyA :: bool
  keyD :: bool
  shiftLeft :: bool
  space :: bool
  mouseLeft :: bool
  isLocked :: bool
  yaw :: real
  pitch :: real
  now :: real
  random :: "nat \<Rightarrow> real"

text \<open>
  The local variables of one run of the updater: the working copy \<^verbatim>\<open>s\<close>, the number
  of random draws made so far, and the accumulators \<^verbatim>\<open>scoreAdd\<close>, \<^verbatim>\<open>xpAdd\<close>,
  \<^verbatim>\<open>hpLoss\<close> and (first build, where it is computed before the pickups) \<^verbatim>\<open>newHp\<close>.
\<close>

record Locals =
  st :: GameState
  rix :: nat
  scoreAdd :: int
  xpAdd :: int
  hpLoss :: real
  newHp :: real

subsection \<open>Helpers\<close>

definition clamp :: "real \<Rightarrow> real \<Rightarrow> real \<Rightarrow> real" where
  "clamp v lo hi = max lo (min hi v)"

text \<open>\<^verbatim>\<open>rnd(a, b)\<close> with the draw \<open>r\<close> of \<^verbatim>\<open>Math.random()\<close>.\<close>

definition rnd :: "real \<Rightarrow> real \<Rightarrow> real \<Rightarrow> real" where
  "rnd a b r = r * (b - a) + a"

text \<open>\<^verbatim>\<open>Math.round\<close>: the nearest integer, halves rounded up.\<close>

definition round_js :: "real \<Rightarrow> real" where
  "round_js x = of_int \<lfloor>x + 1 / 2\<rfloor>"

definition frozen :: "GameState \<Rightarrow> bool" where
  "frozen prev = (\<not> playing prev \<or> paused prev \<or> gameOver prev)"

definition frameDt :: "Input \<Rightarrow> real" where
  "frameDt inp = min (5 / 100) (dtx inp)"

text \<open>The movement direction from the held keys, turned by the camera yaw.\<close>

definition moveKeys :: "Input \<Rightarrow> Vector3" where
  "moveKeys inp =
     (let z1 = (if keyW inp then 0 - 1 else 0);
          z2 = (if keyS inp then z1 + 1 else z1);
          x1 = (if keyA inp then 0 - 1 else 0);
          x2 = (if keyD inp then x1 + 1 else x1);
          move = vec3 x2 0 z2
      in if lengthSq move > 0 then normalize_v move else move)"

definition worldDir :: "Input \<Rightarrow> Vector3" where
  "worldDir inp = normalize_v ((applyEuler 0 (yaw inp) (moveKeys inp))\<lparr>vy := 0\<rparr>)"

text \<open>
  Shooting, the same in both builds. \<^verbatim>\<open>1 / firerate\<close> is \<^verbatim>\<open>Infinity\<close> when the fire
  rate is \<open>0\<close>, and then no shot is ever due; HOL's \<open>1 / 0 = 0\<close> would fire, so the
  case is written out.
\<close>

definition shoot :: "Input \<Rightarrow> Locals \<Rightarrow> Locals" where
  "shoot inp l =
     (let s = st l; p = player s;
          wantShoot = (isLocked inp \<and> mouseLeft inp)
      in if wantShoot \<and> firerate p \<noteq> 0 \<and> now inp - lastShot s \<ge> 1 / firerate p then
           (let fwd = normalize_v (applyEuler (pitch inp) (yaw inp) (vec3 0 0 (- 1)));
                bp = add_v (addScaledVector (pos p) fwd 1) (vec3 0 (1 / 10) 0);
                vel = multiplyScalar fwd (bulletSpeed p);
                b = \<lparr>bid = nextId s, bpos = bp, bvel = vel, blife = 18 / 10,
                     pierceLeft = pierce p, bdamage = damage p\<rparr>
            in l\<lparr>st := s\<lparr>bullets := bullets s @ [b], nextId := nextId s + 1,
                            lastShot := now inp\<rparr>\<rparr>)
         else l)"

definition stepBullet :: "real \<Rightarrow> Bullet \<Rightarrow> Bullet" where
  "stepBullet dt b = b\<lparr>bpos := addScaledVector (bpos b) (bvel b) dt, blife := blife b - dt\<rparr>"

definition bulletsStep :: "real \<Rightarrow> real \<Rightarrow> Locals \<Rightarrow> Locals" where
  "bulletsStep maxRange dt l =
     l\<lparr>st := (st l)\<lparr>bullets :=
        filter (\<lambda>b. blife b > 0 \<and> length_v (bpos b) < maxRange)
          (map (stepBullet dt) (bullets (st l)))\<rparr>\<rparr>"

text \<open>An enemy steps towards the player in the horizontal plane; \<open>toP\<close> is the direction.\<close>

definition toPlayer :: "Vector3 \<Rightarrow> Enemy \<Rightarrow> Vector3" where
  "toPlayer pp e =
     (let toP = (sub_v pp (epos e))\<lparr>vy := 0\<rparr>
      in if lengthSq toP > 0 then normalize_v toP else toP)"

definition seek :: "real \<Rightarrow> Vector3 \<Rightarrow> Enemy \<Rightarrow> Enemy" where
  "seek dt pp e = e\<lparr>epos := addScaledVector (epos e) (toPlayer pp e) (espeed e * dt)\<rparr>"

subsection \<open>Player bullets against enemies\<close>

text \<open>
  The two nested loops of "Collisioni player bullets" / "Collisions". The builds differ
  only in the award of a kill, passed as \<open>sa\<close> (score) and \<open>xa\<close> (experience).
  \<open>hitLoop\<close> is the inner loop of one bullet over the enemies, \<open>bulletLoop\<close> the outer
  loop; the pair of integers is \<^verbatim>\<open>(scoreAdd, xpAdd)\<close>.
\<close>

fun hitLoop :: "(Enemy \<Rightarrow> int) \<Rightarrow> (Enemy \<Rightarrow> int) \<Rightarrow> Bullet \<Rightarrow> Enemy list \<Rightarrow> int \<times> int
    \<Rightarrow> Bullet \<times> Enemy list \<times> (int \<times> int)" where
  "hitLoop sa xa b [] acc = (b, [], acc)"
| "hitLoop sa xa b (e # es) acc =
     (if ehp e \<le> 0 then
        (case hitLoop sa xa b es acc of (b2, es2, acc2) \<Rightarrow> (b2, e # es2, acc2))
      else if distanceTo (bpos b) (epos e) < eradius e + 2 / 10 then
        (let e1 = e\<lparr>ehp := ehp e - bdamage b\<rparr>;
             b1 = (if pierceLeft b \<le> 0 then b\<lparr>blife := - 1\<rparr>
                   else b\<lparr>pierceLeft := pierceLeft b - 1\<rparr>);
             acc1 = (if ehp e1 \<le> 0 then (fst acc + sa e1, snd acc + xa e1) else acc)
         in case hitLoop sa xa b1 es acc1 of (b2, es2, acc2) \<Rightarrow> (b2, e1 # es2, acc2))
      else
        (case hitLoop sa xa b es acc of (b2, es2, acc2) \<Rightarrow> (b2, e # es2, acc2)))"

fun bulletLoop :: "(Enemy \<Rightarrow> int) \<Rightarrow> (Enemy \<Rightarrow> int) \<Rightarrow> Bullet list \<Rightarrow> Enemy list \<Rightarrow> int \<times> int
    \<Rightarrow> Bullet list \<times> Enemy list \<times> (int \<times> int)" where
  "bulletLoop sa xa [] es acc = ([], es, acc)"
| "bulletLoop sa xa (b # bs) es acc =
     (case hitLoop sa xa b es acc of (b1, es1, acc1) \<Rightarrow>
        (case bulletLoop sa xa bs es1 acc1 of (bs2, es2, acc2) \<Rightarrow> (b1 # bs2, es2, acc2)))"

definition collisions :: "(Enemy \<Rightarrow> int) \<Rightarrow> (Enemy \<Rightarrow> int) \<Rightarrow> Locals \<Rightarrow> Locals" where
  "collisions sa xa l =
     (case bulletLoop sa xa (bullets (st l)) (enemies (st l)) (0, 0) of
        (bs, es, acc) \<Rightarrow>
          l\<lparr>st := (st l)\<lparr>enemies := es, bullets := filter (\<lambda>b. blife b > 0) bs\<rparr>,
            scoreAdd := fst acc, xpAdd := snd acc\<rparr>)"

definition scoreAwardA :: "Enemy \<Rightarrow> int" where
  "scoreAwardA e = (if isBoss e then 200 else 15)"

definition xpAwardA :: "Enemy \<Rightarrow> int" where
  "xpAwardA e = (if isBoss e then 5 else 1)"

definition scoreAwardB :: "Enemy \<Rightarrow> int" where
  "scoreAwardB e = 15"

definition xpAwardB :: "Enemy \<Rightarrow> int" where
  "xpAwardB e = 1"

subsection \<open>Levelling and waves\<close>

definition need :: "int \<Rightarrow> int" where
  "need lv = 10 + (lv - 1) * 6"

text \<open>The object returned at the end of the updater, the same in both builds.\<close>

definition finish :: "Locals \<Rightarrow> GameState" where
  "finish l =
     (let s = st l;
          newXp0 = xp s + xpAdd l;
          lvlUp = (newXp0 \<ge> need (level s));
          newXp = (if lvlUp then newXp0 - need (level s) else newXp0);
          newWave = (if time s > 25 + of_int (wave s) * 18 then wave s + 1 else wave s);
          over = (newHp l \<le> 0)
      in s\<lparr>wave := newWave, score := score s + scoreAdd l, xp := newXp,
           level := level s + (if lvlUp then 1 else 0),
           player := (player s)\<lparr>hp := newHp l\<rparr>, gameOver := over\<rparr>)"

subsection \<open>Pickups\<close>

text \<open>The effect of collecting a pickup on the player (experience is counted apart).\<close>

definition collect :: "PickupType \<Rightarrow> Player \<Rightarrow> Player" where
  "collect ty p =
     (let p1 = (if ty = Heart then p\<lparr>hp := clamp (hp p + 15) 0 (maxHp p)\<rparr> else p)
      in if ty = Shield then p1\<lparr>hp := clamp (hp p1 + 8) 0 (maxHp p1)\<rparr> else p1)"

text \<open>
  The pickup loops run from the last index down to the first and splice out what is
  collected or expired: the model walks the reversed list and conses what is kept, which
  leaves the kept pickups in their order. The accumulator is the player, the kept
  pickups and \<^verbatim>\<open>xpAdd\<close>.

  Second build: the distance \<open>d\<close> is measured once, before the attraction.
\<close>

fun pickupLoopB :: "real \<Rightarrow> Pickup list \<Rightarrow> Player \<times> Pickup list \<times> int
    \<Rightarrow> Player \<times> Pickup list \<times> int" where
  "pickupLoopB dt [] acc = acc"
| "pickupLoopB dt (p # ps) (pl, kept, xa) =
     (let p1 = p\<lparr>ttl := ttl p - dt\<rparr>
      in if ttl p1 \<le> 0 then pickupLoopB dt ps (pl, kept, xa)
         else
           (let d = distanceTo (ppos p1) (pos pl);
                p2 = (if d < (25 / 10) * magnet pl then
                        p1\<lparr>ppos := addScaledVector (ppos p1)
                              (normalize_v ((sub_v (pos pl) (ppos p1))\<lparr>vy := 0\<rparr>)) (10 * dt)\<rparr>
                      else p1)
            in if d < 1 then
                 pickupLoopB dt ps
                   (collect (ptype p2) pl, kept, (if ptype p2 = Xp then xa + 1 else xa))
               else pickupLoopB dt ps (pl, p2 # kept, xa)))"

text \<open>First build: the distance is measured again (\<open>d1\<close>) after the attraction.\<close>

fun pickupLoopA :: "real \<Rightarrow> Pickup list \<Rightarrow> Player \<times> Pickup list \<times> int
    \<Rightarrow> Player \<times> Pickup list \<times> int" where
  "pickupLoopA dt [] acc = acc"
| "pickupLoopA dt (p # ps) (pl, kept, xa) =
     (let p1 = p\<lparr>ttl := ttl p - dt\<rparr>
      in if ttl p1 \<le> 0 then pickupLoopA dt ps (pl, kept, xa)
         else
           (let d0 = distanceTo (ppos p1) (pos pl);
                p2 = (if d0 < (25 / 10) * magnet pl then
                        p1\<lparr>ppos := addScaledVector (ppos p1)
                              (normalize_v ((sub_v (pos pl) (ppos p1))\<lparr>vy := 0\<rparr>))
                              ((10 + 6 * magnet pl) * dt)\<rparr>
                      else p1);
                d1 = distanceTo (ppos p2) (pos pl)
            in if d1 < 1 then
                 pickupLoopA dt ps
                   (collect (ptype p2) pl, kept, (if ptype p2 = Xp then xa + 1 else xa))
               else pickupLoopA dt ps (pl, p2 # kept, xa)))"

definition pickupsB :: "real \<Rightarrow> Locals \<Rightarrow> Locals" where
  "pickupsB dt l =
     (case pickupLoopB dt (rev (pickups (st l))) (player (st l), [], xpAdd l) of
        (pl, kept, xa) \<Rightarrow> l\<lparr>st := (st l)\<lparr>player := pl, pickups := kept\<rparr>, xpAdd := xa\<rparr>)"

definition pickupsA :: "real \<Rightarrow> Locals \<Rightarrow> Locals" where
  "pickupsA dt l =
     (case pickupLoopA dt (rev (pickups (st l))) (player (st l), [], xpAdd l) of
        (pl, kept, xa) \<Rightarrow> l\<lparr>st := (st l)\<lparr>player := pl, pickups := kept\<rparr>, xpAdd := xa\<rparr>)"

subsection \<open>The second build (STABLE local build): \<open>tickB\<close>\<close>

definition enterB :: "real \<Rightarrow> GameState \<Rightarrow> Locals" where
  "enterB dt prev =
     \<lparr>st = prev\<lparr>player := (player prev)\<lparr>dashCooldown := max 0 (dashCooldown (player prev) - dt)\<rparr>,
                time := time prev + dt\<rparr>,
      rix = 0, scoreAdd = 0, xpAdd = 0, hpLoss = 0, newHp = 0\<rparr>"

definition movementB :: "Input \<Rightarrow> real \<Rightarrow> Locals \<Rightarrow> Locals" where
  "movementB inp dt l =
     (let s = st l; p = player s;
          willDash = (shiftLeft inp \<and> dashCooldown p = 0);
          spd = speed p * (if willDash then 18 / 10 else 1);
          p1 = (if willDash then p\<lparr>dashCooldown := 1\<rparr> else p);
          nextPos0 = addScaledVector (pos p1) (worldDir inp) (spd * dt);
          nextPos = (if length_v nextPos0 > 35 - 1 then setLength nextPos0 (35 - 1) else nextPos0)
      in l\<lparr>st := s\<lparr>player := p1\<lparr>pos := nextPos\<rparr>\<rparr>\<rparr>)"

definition spawnChance :: "real \<Rightarrow> int \<Rightarrow> real" where
  "spawnChance dt w = dt / ((12 / 10) / (1 + (of_int w - 1) * (15 / 100)))"

definition spawnB :: "Input \<Rightarrow> real \<Rightarrow> Locals \<Rightarrow> Locals" where
  "spawnB inp dt l =
     (let s = st l; k = rix l
      in if random inp k < spawnChance dt (wave s) \<and> int (length (enemies s)) < 45 then
           (let ang = rnd 0 (pi * 2) (random inp (k + 1));
                r = 33;
                ep = vec3 (cos ang * r) 1 (sin ang * r);
                h = round_js (18 + (of_int (wave s) - 1) * 6
                                * (7 / 10 + (3 / 10) * of_int (difficulty s)));
                speedE = 3 + (of_int (wave s) - 1) * (2 / 10) + of_int (difficulty s) * (3 / 10);
                e = \<lparr>eid = nextId s, epos = ep, ehp = h, emaxHp = 0, eradius = 9 / 10,
                     espeed = speedE, isBoss = False, evelY = 0, jumpCooldown = 0,
                     leapTime = 0, leapDir = vec3 0 0 0, shootCooldown = 0\<rparr>
            in l\<lparr>st := s\<lparr>enemies := enemies s @ [e], nextId := nextId s + 1\<rparr>, rix := k + 2\<rparr>)
         else l\<lparr>rix := k + 1\<rparr>)"

definition enemiesMoveB :: "real \<Rightarrow> Locals \<Rightarrow> Locals" where
  "enemiesMoveB dt l =
     l\<lparr>st := (st l)\<lparr>enemies := map (seek dt (pos (player (st l)))) (enemies (st l))\<rparr>\<rparr>"

text \<open>
  "Enemy death -> pickups", a loop from the last index \<open>i\<close> down to \<open>0\<close>. The pickup of
  the enemy at index \<open>i\<close> gets the id \<^verbatim>\<open>s.nextId + i\<close> and the counter is left as it
  is. The model walks the reversed list of indexed enemies; \<open>kept\<close> collects the enemies
  that stay.
\<close>

definition dropB :: "Input \<Rightarrow> nat \<Rightarrow> Enemy \<Rightarrow> Locals \<Rightarrow> Locals" where
  "dropB inp i e l =
     (let s = st l; roll = random inp (rix l)
      in if roll < 6 / 10 then
           l\<lparr>st := s\<lparr>pickups := pickups s @
                  [\<lparr>pid = nextId s + int i, ppos = epos e, ttl = 10,
                    ptype = (if roll < 1 / 10 then Heart
                             else if roll < 18 / 100 then Shield else Xp)\<rparr>]\<rparr>,
             rix := rix l + 1\<rparr>
         else l\<lparr>rix := rix l + 1\<rparr>)"

fun sweepB :: "Input \<Rightarrow> (nat \<times> Enemy) list \<Rightarrow> Enemy list \<Rightarrow> Locals \<Rightarrow> Locals" where
  "sweepB inp [] kept l = l\<lparr>st := (st l)\<lparr>enemies := kept\<rparr>\<rparr>"
| "sweepB inp ((i, e) # es) kept l =
     (if ehp e \<le> 0 then sweepB inp es kept (dropB inp i e l)
      else sweepB inp es (e # kept) l)"

definition deathSweepB :: "Input \<Rightarrow> Locals \<Rightarrow> Locals" where
  "deathSweepB inp l = sweepB inp (rev (enumerate 0 (enemies (st l)))) [] l"

definition contactB :: "real \<Rightarrow> Locals \<Rightarrow> Locals" where
  "contactB dt l =
     (let s = st l
      in l\<lparr>hpLoss := fold (\<lambda>e h. if distanceTo (epos e) (pos (player s)) < eradius e + 8 / 10
                                then h + 10 * dt * of_int (difficulty s) else h)
                      (enemies s) 0\<rparr>)"

definition hpB :: "Locals \<Rightarrow> Locals" where
  "hpB l = l\<lparr>newHp := clamp (hp (player (st l)) - hpLoss l) 0 (maxHp (player (st l)))\<rparr>"

text \<open>The updater in parts: up to the collisions, the collisions, up to the pickups,
  up to the \<^verbatim>\<open>return\<close> statement, and the whole.\<close>

definition untilCollisionsB :: "Input \<Rightarrow> GameState \<Rightarrow> Locals" where
  "untilCollisionsB inp prev =
     (let dt = frameDt inp;
          l1 = movementB inp dt (enterB dt prev);
          l2 = bulletsStep 50 dt (shoot inp l1)
      in enemiesMoveB dt (spawnB inp dt l2))"

definition afterCollisionsB :: "Input \<Rightarrow> GameState \<Rightarrow> Locals" where
  "afterCollisionsB inp prev = collisions scoreAwardB xpAwardB (untilCollisionsB inp prev)"

definition beforePickupsB :: "Input \<Rightarrow> GameState \<Rightarrow> Locals" where
  "beforePickupsB inp prev =
     contactB (frameDt inp) (deathSweepB inp (afterCollisionsB inp prev))"

definition simulateB :: "Input \<Rightarrow> GameState \<Rightarrow> Locals" where
  "simulateB inp prev = hpB (pickupsB (frameDt inp) (beforePickupsB inp prev))"

definition tickB :: "Input \<Rightarrow> GameState \<Rightarrow> GameState" where
  "tickB inp prev = (if frozen prev then prev else finish (simulateB inp prev))"

subsection \<open>The first build: \<open>tickA\<close>\<close>

definition enterA :: "real \<Rightarrow> GameState \<Rightarrow> Locals" where
  "enterA dt prev =
     \<lparr>st = prev\<lparr>player := (player prev)\<lparr>dashCooldown := max 0 (dashCooldown (player prev) - dt)\<rparr>,
                time := time prev + dt,
                hitFlash := max 0 (hitFlash prev - 2 * dt)\<rparr>,
      rix = 0, scoreAdd = 0, xpAdd = 0, hpLoss = 0, newHp = 0\<rparr>"

definition movementA :: "Input \<Rightarrow> real \<Rightarrow> Locals \<Rightarrow> Locals" where
  "movementA inp dt l =
     (let s = st l; p = player s;
          willDash = (shiftLeft inp \<and> dashCooldown p = 0);
          spd = speed p * (if willDash then 18 / 10 else 1);
          p1 = (if willDash then p\<lparr>dashCooldown := 1\<rparr> else p);
          nextPos0 = addScaledVector (pos p1) (worldDir inp) (spd * dt);
          nextPos = (if length_v nextPos0 > 35 - 1 then setLength nextPos0 (35 - 1) else nextPos0)
      in l\<lparr>st := s\<lparr>player := p1\<lparr>pos := (pos p1)\<lparr>vx := vx nextPos, vz := vz nextPos\<rparr>\<rparr>\<rparr>\<rparr>)"

definition jumpA :: "Input \<Rightarrow> real \<Rightarrow> Locals \<Rightarrow> Locals" where
  "jumpA inp dt l =
     (let s = st l; p = player s;
          groundY = 1; g = 18; jumpSpeed = 7;
          onGround = (vy (pos p) \<le> groundY + 1 / 1000 \<and> velY p = 0);
          v1 = (if space inp \<and> onGround then jumpSpeed else velY p);
          v2 = v1 - g * dt;
          y2 = vy (pos p) + v2 * dt
      in if y2 < groundY then l\<lparr>st := s\<lparr>player := p\<lparr>pos := (pos p)\<lparr>vy := groundY\<rparr>, velY := 0\<rparr>\<rparr>\<rparr>
         else l\<lparr>st := s\<lparr>player := p\<lparr>pos := (pos p)\<lparr>vy := y2\<rparr>, velY := v2\<rparr>\<rparr>\<rparr>)"

definition bossWave :: "GameState \<Rightarrow> bool" where
  "bossWave s = (wave s mod 5 = 0)"

definition bossAlive :: "GameState \<Rightarrow> bool" where
  "bossAlive s = list_ex isBoss (enemies s)"

definition bossDue :: "GameState \<Rightarrow> bool" where
  "bossDue s = (bossWave s \<and> \<not> bossActive s \<and> bossDefeatedAtWave s \<noteq> wave s \<and> \<not> bossAlive s)"

definition bossSpawnA :: "Input \<Rightarrow> Locals \<Rightarrow> Locals" where
  "bossSpawnA inp l =
     (let s = st l; k = rix l
      in if bossDue s then
           (let tier = max 1 (wave s div 5);
                baseHp = 260 + 150 * tier;
                h = round_js (of_int baseHp * (1 + (25 / 100) * of_int (difficulty s)));
                speedB = 26 / 10 + (12 / 100) * of_int (wave s) + (25 / 100) * of_int (difficulty s);
                radius = 22 / 10 + (5 / 100) * of_int (wave s);
                bp = vec3 (rnd (- 18) 18 (random inp k)) 1 (rnd (- 18) 18 (random inp (k + 1)));
                boss = \<lparr>eid = nextId s, epos = bp, ehp = h, emaxHp = h, eradius = radius,
                        espeed = speedB, isBoss = True, evelY = 0,
                        jumpCooldown = rnd (12 / 10) 2 (random inp (k + 2)),
                        leapTime = 0, leapDir = vec3 0 0 0,
                        shootCooldown = rnd (5 / 10) 1 (random inp (k + 3))\<rparr>
            in l\<lparr>st := s\<lparr>enemies := [boss], nextId := nextId s + 1, bossActive := True\<rparr>,
                 rix := k + 4\<rparr>)
         else l)"

definition spawnA :: "Input \<Rightarrow> real \<Rightarrow> Locals \<Rightarrow> Locals" where
  "spawnA inp dt l =
     (let s = st l; k = rix l
      in if \<not> bossWave s \<or> \<not> bossActive s then
           (if random inp k < spawnChance dt (wave s)
                 \<and> int (length (filter (\<lambda>e. \<not> isBoss e) (enemies s))) < 45 then
              (let ang = rnd 0 (pi * 2) (random inp (k + 1));
                   r = 33;
                   ep = vec3 (cos ang * r) 1 (sin ang * r);
                   h = round_js (18 + (of_int (wave s) - 1) * 6
                                   * (7 / 10 + (3 / 10) * of_int (difficulty s)));
                   speedE = 3 + (of_int (wave s) - 1) * (2 / 10) + of_int (difficulty s) * (3 / 10);
                   e = \<lparr>eid = nextId s, epos = ep, ehp = h, emaxHp = h, eradius = 9 / 10,
                        espeed = speedE, isBoss = False, evelY = 0, jumpCooldown = 0,
                        leapTime = 0, leapDir = vec3 0 0 0, shootCooldown = 0\<rparr>
               in l\<lparr>st := s\<lparr>enemies := enemies s @ [e], nextId := nextId s + 1\<rparr>, rix := k + 2\<rparr>)
            else l\<lparr>rix := k + 1\<rparr>)
         else l)"

text \<open>
  "Enemies + boss abilita": one pass of the loop body for the enemy \<open>e\<close>. The loop
  reads the player, the wave and the difficulty from \<^verbatim>\<open>s\<close> and may push an enemy
  bullet, drawing its id from the counter. For a boss the body is cut in four: the jump
  cooldown and the leap (\<open>leapA\<close>, which may draw a random number), gravity
  (\<open>fallA\<close>), the projectile (\<open>bossShotA\<close>) and the next shot cooldown
  (\<open>reloadA\<close>).
\<close>

definition leapA :: "Input \<Rightarrow> real \<Rightarrow> GameState \<Rightarrow> Vector3 \<Rightarrow> nat \<Rightarrow> Enemy \<Rightarrow> Enemy \<times> nat" where
  "leapA inp dt s toP k e1 =
     (let pp = pos (player s);
          w = of_int (wave s); d = of_int (difficulty s);
          e2 = e1\<lparr>jumpCooldown := jumpCooldown e1 - dt\<rparr>;
          leap = (jumpCooldown e2 \<le> 0 \<and> distanceTo (epos e2) pp < 24);
          e3 = (if leap then
                  e2\<lparr>evelY := 78 / 10 + (2 / 10) * w, leapDir := toP,
                     leapTime := 55 / 100 + min (4 / 10) ((2 / 100) * w),
                     jumpCooldown := rnd (13 / 10) (25 / 10) (random inp k)\<rparr>
                else e2);
          k3 = (if leap then k + 1 else k);
          e4 = (if leapTime e3 > 0 then
                  e3\<lparr>epos := addScaledVector (epos e3) (leapDir e3)
                               ((65 / 10 + (22 / 100) * w + (7 / 10) * d) * dt),
                     leapTime := leapTime e3 - dt\<rparr>
                else e3)
      in (e4, k3))"

definition fallA :: "real \<Rightarrow> Enemy \<Rightarrow> Enemy" where
  "fallA dt e4 =
     (let v5 = evelY e4 - 22 * dt;
          y5 = vy (epos e4) + v5 * dt
      in if y5 < 1 then e4\<lparr>epos := (epos e4)\<lparr>vy := 1\<rparr>, evelY := 0\<rparr>
         else e4\<lparr>epos := (epos e4)\<lparr>vy := y5\<rparr>, evelY := v5\<rparr>)"

definition bossShotA :: "GameState \<Rightarrow> Enemy \<Rightarrow> EnemyBullet" where
  "bossShotA s e6 =
     (let pp = pos (player s);
          w = of_int (wave s); d = of_int (difficulty s);
          dir = normalize_v (sub_v pp (epos e6));
          spd = 7 + (65 / 100) * w + (75 / 100) * d;
          posB = add_v (epos e6) (multiplyScalar dir (eradius e6 + 4 / 10));
          velB = multiplyScalar dir spd
      in \<lparr>ebid = nextId s, ebpos = posB, ebvel = velB, eblife = 35 / 10, ebdamage = 18 + 4 * d\<rparr>)"

definition reloadA :: "GameState \<Rightarrow> real" where
  "reloadA s =
     max (4 / 10) ((17 / 10) / (1 + (8 / 100) * of_int (wave s) + (25 / 100) * of_int (difficulty s)))"

definition enemyStepA :: "Input \<Rightarrow> real \<Rightarrow> Enemy \<Rightarrow> Locals \<Rightarrow> Enemy \<times> Locals" where
  "enemyStepA inp dt e l =
     (let s = st l; pp = pos (player s);
          toP = toPlayer pp e;
          e1 = seek dt pp e
      in if isBoss e1 then
           (case leapA inp dt s toP (rix l) e1 of (e4, k3) \<Rightarrow>
              (let e5 = fallA dt e4;
                   e6 = e5\<lparr>shootCooldown := shootCooldown e5 - dt\<rparr>
               in if shootCooldown e6 \<le> 0 then
                    (e6\<lparr>shootCooldown := reloadA s\<rparr>,
                     l\<lparr>st := s\<lparr>eBullets := eBullets s @ [bossShotA s e6], nextId := nextId s + 1\<rparr>,
                       rix := k3\<rparr>)
                  else (e6, l\<lparr>rix := k3\<rparr>)))
         else (e1, l))"

fun enemiesLoopA :: "Input \<Rightarrow> real \<Rightarrow> Enemy list \<Rightarrow> Locals \<Rightarrow> Enemy list \<times> Locals" where
  "enemiesLoopA inp dt [] l = ([], l)"
| "enemiesLoopA inp dt (e # es) l =
     (case enemyStepA inp dt e l of (e1, l1) \<Rightarrow>
        (case enemiesLoopA inp dt es l1 of (es2, l2) \<Rightarrow> (e1 # es2, l2)))"

definition enemiesA :: "Input \<Rightarrow> real \<Rightarrow> Locals \<Rightarrow> Locals" where
  "enemiesA inp dt l =
     (case enemiesLoopA inp dt (enemies (st l)) l of
        (es, l1) \<Rightarrow> l1\<lparr>st := (st l1)\<lparr>enemies := es\<rparr>\<rparr>)"

text \<open>"Enemy bullets + hit": step and cull, then every bullet within 0.7 of the player
  adds its damage to \<^verbatim>\<open>hpLoss\<close> and is removed.\<close>

definition stepEBullet :: "real \<Rightarrow> EnemyBullet \<Rightarrow> EnemyBullet" where
  "stepEBullet dt b = b\<lparr>ebpos := addScaledVector (ebpos b) (ebvel b) dt, eblife := eblife b - dt\<rparr>"

definition eBulletsA :: "real \<Rightarrow> Locals \<Rightarrow> Locals" where
  "eBulletsA dt l =
     (let s = st l; pp = pos (player s);
          ebs1 = filter (\<lambda>b. eblife b > 0 \<and> length_v (ebpos b) < 70)
                   (map (stepEBullet dt) (eBullets s));
          loss = fold (\<lambda>b h. if distanceTo (ebpos b) pp < 7 / 10 then h + ebdamage b else h) ebs1 0;
          ebs2 = map (\<lambda>b. if distanceTo (ebpos b) pp < 7 / 10 then b\<lparr>eblife := - 1\<rparr> else b) ebs1
      in l\<lparr>st := s\<lparr>eBullets := filter (\<lambda>b. eblife b > 0) ebs2\<rparr>, hpLoss := loss\<rparr>)"

text \<open>
  "Morti -> drop", a loop from the last index down to \<open>0\<close>: a dead enemy rolls its loot,
  a dead boss clears the boss flag, and the enemy is spliced out. \<open>dropA\<close> is the body
  for a dead enemy; the pickup draws its id from the counter.
\<close>

definition dropA :: "Input \<Rightarrow> Enemy \<Rightarrow> Locals \<Rightarrow> Locals" where
  "dropA inp e l =
     (let s = st l; roll = random inp (rix l);
          s1 = (if roll < (if isBoss e then 1 else 6 / 10) then
                  s\<lparr>pickups := pickups s @
                      [\<lparr>pid = nextId s, ppos = epos e, ttl = (if isBoss e then 18 else 10),
                        ptype = (if isBoss e then
                                   (if roll < 4 / 10 then Heart
                                    else if roll < 7 / 10 then Shield else Xp)
                                 else
                                   (if roll < 1 / 10 then Heart
                                    else if roll < 18 / 100 then Shield else Xp))\<rparr>],
                    nextId := nextId s + 1\<rparr>
                else s);
          s2 = (if isBoss e then s1\<lparr>bossActive := False, bossDefeatedAtWave := wave s1\<rparr> else s1)
      in l\<lparr>st := s2, rix := rix l + 1\<rparr>)"

fun sweepA :: "Input \<Rightarrow> Enemy list \<Rightarrow> Enemy list \<Rightarrow> Locals \<Rightarrow> Locals" where
  "sweepA inp [] kept l = l\<lparr>st := (st l)\<lparr>enemies := kept\<rparr>\<rparr>"
| "sweepA inp (e # es) kept l =
     (if ehp e \<le> 0 then sweepA inp es kept (dropA inp e l)
      else sweepA inp es (e # kept) l)"

definition deathSweepA :: "Input \<Rightarrow> Locals \<Rightarrow> Locals" where
  "deathSweepA inp l = sweepA inp (rev (enemies (st l))) [] l"

text \<open>"Danni da contatto", the hit flash, and \<^verbatim>\<open>newHp\<close>, computed here, before the
  pickups are swept.\<close>

definition contactA :: "real \<Rightarrow> Locals \<Rightarrow> Locals" where
  "contactA dt l =
     (let s = st l;
          loss = fold (\<lambda>e h. if distanceTo (epos e) (pos (player s)) < eradius e + 8 / 10
                             then h + (if isBoss e then 25 else 10) * of_int (difficulty s) * dt
                             else h)
                   (enemies s) (hpLoss l);
          s1 = (if loss > 0 then s\<lparr>hitFlash := 1\<rparr> else s)
      in l\<lparr>st := s1, hpLoss := loss,
           newHp := clamp (hp (player s) - loss) 0 (maxHp (player s))\<rparr>)"

text \<open>The updater in parts: up to the boss spawn, up to the collisions, the collisions,
  up to the pickups, up to the \<^verbatim>\<open>return\<close> statement, and the whole.\<close>

definition beforeBossA :: "Input \<Rightarrow> GameState \<Rightarrow> Locals" where
  "beforeBossA inp prev =
     (let dt = frameDt inp in jumpA inp dt (movementA inp dt (enterA dt prev)))"

definition untilCollisionsA :: "Input \<Rightarrow> GameState \<Rightarrow> Locals" where
  "untilCollisionsA inp prev =
     (let dt = frameDt inp;
          l2 = bulletsStep 60 dt (shoot inp (bossSpawnA inp (beforeBossA inp prev)))
      in enemiesA inp dt (spawnA inp dt l2))"

definition afterCollisionsA :: "Input \<Rightarrow> GameState \<Rightarrow> Locals" where
  "afterCollisionsA inp prev = collisions scoreAwardA xpAwardA (untilCollisionsA inp prev)"

definition beforePickupsA :: "Input \<Rightarrow> GameState \<Rightarrow> Locals" where
  "beforePickupsA inp prev =
     contactA (frameDt inp)
       (deathSweepA inp (eBulletsA (frameDt inp) (afterCollisionsA inp prev)))"

definition simulateA :: "Input \<Rightarrow> GameState \<Rightarrow> Locals" where
  "simulateA inp prev = pickupsA (frameDt inp) (beforePickupsA inp prev)"

definition tickA :: "Input \<Rightarrow> GameState \<Rightarrow> GameState" where
  "tickA inp prev = (if frozen prev then prev else finish (simulateA inp prev))"

subsection \<open>The other state updates of \<^verbatim>\<open>App\<close>\<close>

text \<open>The state of \<^verbatim>\<open>useGameState\<close> before the first start.\<close>

definition startPlayer :: Player where
  "startPlayer = \<lparr>pos = vec3 0 1 0, velY = 0, speed = 10, dashCooldown = 0, maxHp = 100,
     hp = 100, magnet = 1, damage = 10, firerate = 7, bulletSpeed = 35, pierce = 0\<rparr>"

definition initialState :: GameState where
  "initialState = \<lparr>playing = False, paused = False, gameOver = False, wave = 1, time = 0,
     score = 0, level = 1, xp = 0, player = startPlayer, enemies = [], bullets = [],
     eBullets = [], pickups = [], nextId = 1, lastShot = 0, difficulty = 2,
     bossActive = False, bossDefeatedAtWave = 0, hitFlash = 0\<rparr>"

text \<open>\<^verbatim>\<open>start\<close> replaces the whole state and keeps the chosen difficulty.\<close>

definition start :: "GameState \<Rightarrow> GameState" where
  "start s = initialState\<lparr>playing := True, difficulty := difficulty s\<rparr>"

datatype Upgrade = UDamage | UFirerate | USpeed | UMaxHp | UBullet | UMagnet | UPierce

text \<open>The \<^verbatim>\<open>apply\<close> functions of \<^verbatim>\<open>ALL_UPGRADES\<close>.\<close>

fun applyUpgrade :: "Upgrade \<Rightarrow> GameState \<Rightarrow> GameState" where
  "applyUpgrade UDamage s = s\<lparr>player := (player s)\<lparr>damage := damage (player s) * (125 / 100)\<rparr>\<rparr>"
| "applyUpgrade UFirerate s = s\<lparr>player := (player s)\<lparr>firerate := firerate (player s) * (115 / 100)\<rparr>\<rparr>"
| "applyUpgrade USpeed s = s\<lparr>player := (player s)\<lparr>speed := speed (player s) * (115 / 100)\<rparr>\<rparr>"
| "applyUpgrade UMaxHp s =
     s\<lparr>player := (player s)
        \<lparr>maxHp := round_js (maxHp (player s) * (12 / 10)),
         hp := min (round_js (maxHp (player s) * (12 / 10)))
                   (round_js (hp (player s) + maxHp (player s) * (2 / 10)))\<rparr>\<rparr>"
| "applyUpgrade UBullet s = s\<lparr>player := (player s)\<lparr>bulletSpeed := bulletSpeed (player s) * (12 / 10)\<rparr>\<rparr>"
| "applyUpgrade UMagnet s = s\<lparr>player := (player s)\<lparr>magnet := magnet (player s) * (13 / 10)\<rparr>\<rparr>"
| "applyUpgrade UPierce s = s\<lparr>player := (player s)\<lparr>pierce := pierce (player s) + 1\<rparr>\<rparr>"

text \<open>
  Every call of the state setter in \<^verbatim>\<open>App\<close> and \<^verbatim>\<open>GameLoop\<close>: a frame, start or
  reset, the pause toggle (key P and the button), the pause of the level-up effect, the
  difficulty pills, the choice of an upgrade, and the "Options" button of the game-over
  panel (which changes the state in the first build only).
\<close>

datatype Difficulty = Easy | Normal | Hard

fun difficultyValue :: "Difficulty \<Rightarrow> int" where
  "difficultyValue Easy = 1"
| "difficultyValue Normal = 2"
| "difficultyValue Hard = 3"

datatype Event = Frame Input | Start | TogglePause | LevelUpPause | SetDifficulty Difficulty
  | Choose Upgrade | Options

fun other :: "Event \<Rightarrow> GameState \<Rightarrow> GameState" where
  "other Start s = start s"
| "other TogglePause s = s\<lparr>paused := \<not> paused s\<rparr>"
| "other LevelUpPause s = s\<lparr>paused := True\<rparr>"
| "other (SetDifficulty d) s = s\<lparr>difficulty := difficultyValue d\<rparr>"
| "other (Choose u) s = applyUpgrade u (s\<lparr>paused := False\<rparr>)"
| "other ev s = s"

fun stepA :: "Event \<Rightarrow> GameState \<Rightarrow> GameState" where
  "stepA (Frame inp) s = tickA inp s"
| "stepA Options s = s\<lparr>gameOver := False, paused := True\<rparr>"
| "stepA ev s = other ev s"

fun stepB :: "Event \<Rightarrow> GameState \<Rightarrow> GameState" where
  "stepB (Frame inp) s = tickB inp s"
| "stepB ev s = other ev s"

text \<open>The session after a sequence of events, oldest first.\<close>

definition runA :: "Event list \<Rightarrow> GameState" where
  "runA evs = fold stepA evs initialState"

definition runB :: "Event list \<Rightarrow> GameState" where
  "runB evs = fold stepB evs initialState"

subsection \<open>Notions used to state the properties\<close>

text \<open>The fields of the working copy that no step between the entry of the updater and
  its \<^verbatim>\<open>return\<close> statement writes.\<close>

definition sameCore :: "GameState \<Rightarrow> GameState \<Rightarrow> bool" where
  "sameCore s t =
     (wave t = wave s \<and> time t = time s \<and> score t = score s \<and> level t = level s \<and>
      xp t = xp s \<and> difficulty t = difficulty s \<and> maxHp (player t) = maxHp (player s))"

text \<open>The enemies that a collision pass brought from positive hit points to none:
  \<open>before\<close> and \<open>after\<close> are the enemy list before and after the pass, index by index.\<close>

definition slain :: "Enemy list \<Rightarrow> Enemy list \<Rightarrow> Enemy list" where
  "slain before after =
     map snd (filter (\<lambda>(e, e'). 0 < ehp e \<and> ehp e' \<le> 0) (zip before after))"

definition nBoss :: "Enemy list \<Rightarrow> nat" where
  "nBoss es = length (filter isBoss es)"

definition atMostOneBoss :: "GameState \<Rightarrow> bool" where
  "atMostOneBoss s = (nBoss (enemies s) \<le> 1)"

text \<open>The enemy list holds a boss without hit points: a boss that the death sweep removes.\<close>

definition bossSlain :: "Enemy list \<Rightarrow> bool" where
  "bossSlain es = list_ex (\<lambda>e. isBoss e \<and> ehp e \<le> 0) es"

text \<open>The wave and the two boss fields of the state are the same in \<open>s\<close> and \<open>t\<close>.\<close>

definition sameFlags :: "GameState \<Rightarrow> GameState \<Rightarrow> bool" where
  "sameFlags s t =
     (wave t = wave s \<and> bossActive t = bossActive s \<and>
      bossDefeatedAtWave t = bossDefeatedAtWave s)"

text \<open>This wave's boss is recorded as defeated and no boss is in the enemy list.\<close>

definition bossDone :: "GameState \<Rightarrow> bool" where
  "bossDone s = (bossDefeatedAtWave s = wave s \<and> \<not> bossAlive s)"

text \<open>\<open>hurt e e'\<close>: the enemy \<open>e'\<close> is \<open>e\<close> with other hit points, and is \<open>e\<close> itself when
  \<open>e\<close> had none left.\<close>

definition hurt :: "Enemy \<Rightarrow> Enemy \<Rightarrow> bool" where
  "hurt e e' = (e'\<lparr>ehp := ehp e\<rparr> = e \<and> (if ehp e \<le> 0 then e' = e else True))"

definition award :: "(Enemy \<Rightarrow> int) \<Rightarrow> Enemy \<Rightarrow> Enemy \<Rightarrow> int" where
  "award sa e e' = (if 0 < ehp e \<and> ehp e' \<le> 0 then sa e' else 0)"

definition awards :: "(Enemy \<Rightarrow> int) \<Rightarrow> Enemy list \<Rightarrow> Enemy list \<Rightarrow> int" where
  "awards sa es es' = sum_list (map (\<lambda>(e, e'). award sa e e') (zip es es'))"

text \<open>The experience that the pickup loop of a frame adds: the loop's own count, started
  at \<open>0\<close>, on the locals \<open>l\<close> that reach it.\<close>

definition pickupXpA :: "real \<Rightarrow> Locals \<Rightarrow> int" where
  "pickupXpA dt l = snd (snd (pickupLoopA dt (rev (pickups (st l))) (player (st l), [], 0)))"

definition pickupXpB :: "real \<Rightarrow> Locals \<Rightarrow> int" where
  "pickupXpB dt l = snd (snd (pickupLoopB dt (rev (pickups (st l))) (player (st l), [], 0)))"

text \<open>The bound that relates the session clock to the wave counter in every state a
  session can reach.\<close>

definition waveInv :: "GameState \<Rightarrow> bool" where
  "waveInv s = (time s \<le> 25 + 18 * of_int (wave s))"

subsection \<open>Concrete sessions and inputs\<close>

text \<open>A frame of a fiftieth of a second with no key held and the pointer not locked;
  every random draw is one half, so nothing spawns.\<close>

definition idle :: Input where
  "idle = \<lparr>dtx = 1 / 50, keyW = False, keyS = False, keyA = False, keyD = False,
     shiftLeft = False, space = False, mouseLeft = False, isLocked = False, yaw = 0, pitch = 0,
     now = 10, random = (\<lambda>k. 1 / 2)\<rparr>"

text \<open>A session just started, and the same session paused.\<close>

definition playingState :: GameState where
  "playingState = start initialState"

definition pausedState :: GameState where
  "pausedState = playingState\<lparr>paused := True\<rparr>"

text \<open>Experience pickups half a unit from the player: one with \<open>9\<close> experience at level
  \<open>1\<close>, and seventeen of them.\<close>

definition xpPickup :: "int \<Rightarrow> Pickup" where
  "xpPickup i = \<lparr>pid = i, ppos = vec3 (1 / 2) 1 0, ttl = 5, ptype = Xp\<rparr>"

definition nearLevelUp :: GameState where
  "nearLevelUp = playingState\<lparr>xp := 9, pickups := [xpPickup 1], nextId := 2\<rparr>"

definition manyPickups :: GameState where
  "manyPickups = playingState\<lparr>xp := 9,
     pickups := map xpPickup [1, 2, 3, 4, 5, 6, 7, 8, 9, 10, 11, 12, 13, 14, 15, 16, 17],
     nextId := 18\<rparr>"

text \<open>A normal enemy of wave \<open>1\<close> at difficulty \<open>2\<close> with id \<open>i\<close>, at \<open>p\<close>, with \<open>h\<close> hit
  points; a player with a tenth of a hit point and an enemy upon it; a session whose clock
  shows \<open>t\<close>.\<close>

definition grunt :: "int \<Rightarrow> Vector3 \<Rightarrow> real \<Rightarrow> Enemy" where
  "grunt i p h = \<lparr>eid = i, epos = p, ehp = h, emaxHp = 18, eradius = 9 / 10, espeed = 36 / 10,
     isBoss = False, evelY = 0, jumpCooldown = 0, leapTime = 0, leapDir = vec3 0 0 0,
     shootCooldown = 0\<rparr>"

definition cornered :: GameState where
  "cornered = playingState\<lparr>player := startPlayer\<lparr>hp := 1 / 10\<rparr>,
     enemies := [grunt 1 (vec3 0 1 0) 18], nextId := 2\<rparr>"

definition lateWave :: "real \<Rightarrow> GameState" where
  "lateWave t = playingState\<lparr>time := t\<rparr>"

text \<open>A player bullet flying straight ahead with \<open>k\<close> pierce left; one enemy with \<open>h\<close>
  hit points and a bullet about to reach it; two enemies half a unit apart and a bullet
  about to reach both; a frame with the pointer locked and the left button held; a
  player at half its hit points with a heart half a unit away.\<close>

definition shot :: "int \<Rightarrow> Vector3 \<Rightarrow> int \<Rightarrow> Bullet" where
  "shot i p k = \<lparr>bid = i, bpos = p, bvel = vec3 0 0 (- 35), blife = 15 / 10, pierceLeft = k,
     bdamage = 10\<rparr>"

definition duel :: "real \<Rightarrow> GameState" where
  "duel h = playingState\<lparr>enemies := [grunt 1 (vec3 0 1 (- 5)) h],
     bullets := [shot 3 (vec3 0 (11 / 10) (- (45 / 10))) 0], nextId := 4\<rparr>"

definition crowd :: GameState where
  "crowd = playingState\<lparr>
     enemies := [grunt 1 (vec3 0 1 (- 5)) 18, grunt 2 (vec3 0 1 (- (55 / 10))) 18],
     bullets := [shot 3 (vec3 0 (11 / 10) (- (45 / 10))) 0], nextId := 4\<rparr>"

definition fire :: Input where
  "fire = idle\<lparr>mouseLeft := True, isLocked := True\<rparr>"

definition wounded :: GameState where
  "wounded = playingState\<lparr>player := startPlayer\<lparr>hp := 50\<rparr>,
     pickups := [\<lparr>pid = 1, ppos = vec3 (1 / 2) 1 0, ttl = 5, ptype = Heart\<rparr>], nextId := 2\<rparr>"

text \<open>The state that the first build reaches from \<open>cornered\<close> by a frame (which ends the
  game), the "Options" button of the game-over panel and the key P.\<close>

definition revived :: GameState where
  "revived = stepA TogglePause (stepA Options (tickA idle cornered))"

text \<open>Wave \<open>5\<close> with its boss on the field, down to \<open>8\<close> hit points, and a bullet about to
  reach it.\<close>

definition bossFight :: GameState where
  "bossFight = playingState\<lparr>wave := 5, time := 100, bossActive := True,
     enemies := [\<lparr>eid = 2, epos = vec3 0 1 (- 5), ehp = 8, emaxHp = 615, eradius = 245 / 100,
                  espeed = 37 / 10, isBoss = True, evelY = 0, jumpCooldown = 1, leapTime = 0,
                  leapDir = vec3 0 0 0, shootCooldown = 1 / 2\<rparr>],
     bullets := [shot 3 (vec3 0 (11 / 10) (- (45 / 10))) 0], nextId := 4\<rparr>"

text \<open>Wave \<open>5\<close>, a hundred seconds in, one normal enemy on the field.\<close>

definition waveFive :: GameState where
  "waveFive = playingState\<lparr>wave := 5, time := 100, enemies := [grunt 1 (vec3 0 1 (- 5)) 18],
     nextId := 2\<rparr>"

section \<open>Properties\<close>

subsection \<open>What the steps of the updater leave alone\<close>

lemma sameCore_refl: "sameCore s s"
  by (simp add: sameCore_def)

lemma sameCore_trans: "sameCore s t \<Longrightarrow> sameCore t u \<Longrightarrow> sameCore s u"
  by (simp add: sameCore_def)

lemma core_movementB: "sameCore (st l) (st (movementB inp dt l))"
  by (simp add: movementB_def sameCore_def Let_def)

lemma core_movementA: "sameCore (st l) (st (movementA inp dt l))"
  by (simp add: movementA_def sameCore_def Let_def)

lemma core_jumpA: "sameCore (st l) (st (jumpA inp dt l))"
  by (simp add: jumpA_def sameCore_def Let_def)

lemma core_bossSpawnA: "sameCore (st l) (st (bossSpawnA inp l))"
  by (simp add: bossSpawnA_def sameCore_def Let_def)

lemma core_shoot: "sameCore (st l) (st (shoot inp l))"
  by (simp add: shoot_def sameCore_def Let_def)

lemma core_bulletsStep: "sameCore (st l) (st (bulletsStep r dt l))"
  by (simp add: bulletsStep_def sameCore_def)

lemma core_spawnB: "sameCore (st l) (st (spawnB inp dt l))"
  by (simp add: spawnB_def sameCore_def Let_def)

lemma core_spawnA: "sameCore (st l) (st (spawnA inp dt l))"
  by (simp add: spawnA_def sameCore_def Let_def)

lemma core_enemiesMoveB: "sameCore (st l) (st (enemiesMoveB dt l))"
  by (simp add: enemiesMoveB_def sameCore_def)

lemma core_enemyStepA: "sameCore (st l) (st (snd (enemyStepA inp dt e l)))"
  by (simp add: enemyStepA_def sameCore_def Let_def split_beta)

lemma core_enemiesLoopA: "sameCore (st l) (st (snd (enemiesLoopA inp dt es l)))"
proof (induction es arbitrary: l)
  case Nil
  show ?case by (simp add: sameCore_refl)
next
  case (Cons e es)
  have "sameCore (st l) (st (snd (enemyStepA inp dt e l)))"
    by (rule core_enemyStepA)
  moreover have "sameCore (st (snd (enemyStepA inp dt e l)))
      (st (snd (enemiesLoopA inp dt es (snd (enemyStepA inp dt e l)))))"
    by (rule Cons.IH)
  ultimately show ?case
    by (auto simp: split_beta intro: sameCore_trans)
qed

lemma core_enemiesA: "sameCore (st l) (st (enemiesA inp dt l))"
  using core_enemiesLoopA [of l inp dt "enemies (st l)"]
  by (simp add: enemiesA_def split_beta sameCore_def)

lemma core_collisions: "sameCore (st l) (st (collisions sa xa l))"
  by (simp add: collisions_def sameCore_def split_beta)

lemma core_eBulletsA: "sameCore (st l) (st (eBulletsA dt l))"
  by (simp add: eBulletsA_def sameCore_def Let_def)

lemma core_dropA: "sameCore (st l) (st (dropA inp e l))"
  by (simp add: dropA_def sameCore_def Let_def)

lemma core_dropB: "sameCore (st l) (st (dropB inp i e l))"
  by (simp add: dropB_def sameCore_def Let_def)

lemma core_sweepA: "sameCore (st l) (st (sweepA inp es kept l))"
proof (induction es arbitrary: kept l)
  case Nil
  show ?case by (simp add: sameCore_def)
next
  case (Cons e es)
  show ?case
    using Cons.IH [of "dropA inp e l" kept] Cons.IH [of l "e # kept"] core_dropA [of l inp e]
    by (auto intro: sameCore_trans)
qed

lemma core_sweepB: "sameCore (st l) (st (sweepB inp ies kept l))"
proof (induction ies arbitrary: kept l)
  case Nil
  show ?case by (simp add: sameCore_def)
next
  case (Cons ie ies)
  obtain i e where ie: "ie = (i, e)" by (cases ie)
  show ?case
    using Cons.IH [of "dropB inp i e l" kept] Cons.IH [of l "e # kept"] core_dropB [of l inp i e]
    by (auto simp: ie intro: sameCore_trans)
qed

lemma core_deathSweepA: "sameCore (st l) (st (deathSweepA inp l))"
  by (simp add: deathSweepA_def core_sweepA)

lemma core_deathSweepB: "sameCore (st l) (st (deathSweepB inp l))"
  by (simp add: deathSweepB_def core_sweepB)

lemma core_contactA: "sameCore (st l) (st (contactA dt l))"
  by (simp add: contactA_def sameCore_def Let_def)

lemma core_contactB: "sameCore (st l) (st (contactB dt l))"
  by (simp add: contactB_def sameCore_def Let_def)

lemma maxHp_collect: "maxHp (collect ty p) = maxHp p"
  by (simp add: collect_def Let_def)

lemma maxHp_pickupLoopA:
  "maxHp (fst (pickupLoopA dt ps (pl, kept, xa))) = maxHp pl"
  by (induction ps arbitrary: pl kept xa) (simp_all add: Let_def maxHp_collect)

lemma maxHp_pickupLoopB:
  "maxHp (fst (pickupLoopB dt ps (pl, kept, xa))) = maxHp pl"
  by (induction ps arbitrary: pl kept xa) (simp_all add: Let_def maxHp_collect)

lemma core_pickupsA: "sameCore (st l) (st (pickupsA dt l))"
  by (simp add: pickupsA_def sameCore_def split_beta maxHp_pickupLoopA)

lemma core_pickupsB: "sameCore (st l) (st (pickupsB dt l))"
  by (simp add: pickupsB_def sameCore_def split_beta maxHp_pickupLoopB)

lemma core_hpB: "sameCore (st l) (st (hpB l))"
  by (simp add: hpB_def sameCore_def)

lemmas core_steps = core_movementB core_movementA core_jumpA core_bossSpawnA core_shoot
  core_bulletsStep core_spawnB core_spawnA core_enemiesMoveB core_enemiesA core_collisions
  core_eBulletsA core_deathSweepA core_deathSweepB core_contactA core_contactB core_pickupsA
  core_pickupsB core_hpB

lemmas core_then = core_steps [THEN [2] sameCore_trans]

lemma core_untilCollisionsA:
  "sameCore (st (enterA (frameDt inp) prev)) (st (untilCollisionsA inp prev))"
  unfolding untilCollisionsA_def beforeBossA_def Let_def
  by (intro core_then) (rule sameCore_refl)

lemma core_simulateA:
  "sameCore (st (enterA (frameDt inp) prev)) (st (simulateA inp prev))"
  unfolding simulateA_def beforePickupsA_def afterCollisionsA_def
  by (intro core_then) (rule core_untilCollisionsA)

lemma core_untilCollisionsB:
  "sameCore (st (enterB (frameDt inp) prev)) (st (untilCollisionsB inp prev))"
  unfolding untilCollisionsB_def Let_def
  by (intro core_then) (rule sameCore_refl)

lemma core_simulateB:
  "sameCore (st (enterB (frameDt inp) prev)) (st (simulateB inp prev))"
  unfolding simulateB_def beforePickupsB_def afterCollisionsB_def
  by (intro core_then) (rule core_untilCollisionsB)

subsection \<open>The returned state\<close>

text \<open>What the returned object holds, field by field.\<close>

lemma finish_fields:
  "wave (finish l) =
     (if time (st l) > 25 + of_int (wave (st l)) * 18 then wave (st l) + 1 else wave (st l))"
  "time (finish l) = time (st l)"
  "score (finish l) = score (st l) + scoreAdd l"
  "xp (finish l) =
     (if xp (st l) + xpAdd l \<ge> need (level (st l)) then xp (st l) + xpAdd l - need (level (st l))
      else xp (st l) + xpAdd l)"
  "level (finish l) =
     (if xp (st l) + xpAdd l \<ge> need (level (st l)) then level (st l) + 1 else level (st l))"
  "hp (player (finish l)) = newHp l"
  "maxHp (player (finish l)) = maxHp (player (st l))"
  "gameOver (finish l) = (newHp l \<le> 0)"
  "enemies (finish l) = enemies (st l)"
  "bullets (finish l) = bullets (st l)"
  "pickups (finish l) = pickups (st l)"
  "nextId (finish l) = nextId (st l)"
  by (simp_all add: finish_def Let_def)

lemma enter_fields:
  "wave (st (enterA dt s)) = wave s" "time (st (enterA dt s)) = time s + dt"
  "score (st (enterA dt s)) = score s" "level (st (enterA dt s)) = level s"
  "xp (st (enterA dt s)) = xp s" "maxHp (player (st (enterA dt s))) = maxHp (player s)"
  "wave (st (enterB dt s)) = wave s" "time (st (enterB dt s)) = time s + dt"
  "score (st (enterB dt s)) = score s" "level (st (enterB dt s)) = level s"
  "xp (st (enterB dt s)) = xp s" "maxHp (player (st (enterB dt s))) = maxHp (player s)"
  by (simp_all add: enterA_def enterB_def)

lemma simulateA_fields:
  "wave (st (simulateA inp s)) = wave s" "time (st (simulateA inp s)) = time s + frameDt inp"
  "score (st (simulateA inp s)) = score s" "level (st (simulateA inp s)) = level s"
  "xp (st (simulateA inp s)) = xp s" "maxHp (player (st (simulateA inp s))) = maxHp (player s)"
  using core_simulateA [of inp s] by (simp_all add: sameCore_def enter_fields)

lemma simulateB_fields:
  "wave (st (simulateB inp s)) = wave s" "time (st (simulateB inp s)) = time s + frameDt inp"
  "score (st (simulateB inp s)) = score s" "level (st (simulateB inp s)) = level s"
  "xp (st (simulateB inp s)) = xp s" "maxHp (player (st (simulateB inp s))) = maxHp (player s)"
  using core_simulateB [of inp s] by (simp_all add: sameCore_def enter_fields)

lemma frameDt_le: "frameDt inp \<le> 1 / 20"
  by (simp add: frameDt_def)

subsection \<open>Frozen frames\<close>

text \<open>
  Claim C8, with game over read as the flag. A tick on a state that is not playing, is paused or has the flag
  \<^verbatim>\<open>gameOver\<close> set returns the previous state as it is, every field included, in both
  builds; and a frame that runs sets the flag exactly when the player's resulting hit
  points are \<open>0\<close> or less. The guard reads the flag, not the hit points: the claim as
  written, with game over meaning hit points at \<open>0\<close> or less, fails in the first build,
  where the "Options" button clears the flag at \<open>0\<close> hit points and the key P then
  resumes the run.
\<close>

theorem frozen_tick_unchanged:
  "(\<not> playing s \<or> paused s \<or> gameOver s \<longrightarrow> tickA inp s = s \<and> tickB inp s = s) \<and>
   (\<not> (\<not> playing s \<or> paused s \<or> gameOver s) \<longrightarrow>
      gameOver (tickA inp s) = (hp (player (tickA inp s)) \<le> 0) \<and>
      gameOver (tickB inp s) = (hp (player (tickB inp s)) \<le> 0))"
  by (simp add: tickA_def tickB_def frozen_def finish_fields)

subsection \<open>Wave advancement\<close>

lemma wave_tickA:
  "wave (tickA inp s) =
     (if \<not> frozen s \<and> 25 + 18 * of_int (wave s) < time s + frameDt inp then wave s + 1 else wave s)"
  by (simp add: tickA_def finish_fields simulateA_fields mult.commute)

lemma time_tickA:
  "time (tickA inp s) = (if frozen s then time s else time s + frameDt inp)"
  by (simp add: tickA_def finish_fields simulateA_fields)

lemma wave_tickB:
  "wave (tickB inp s) =
     (if \<not> frozen s \<and> 25 + 18 * of_int (wave s) < time s + frameDt inp then wave s + 1 else wave s)"
  by (simp add: tickB_def finish_fields simulateB_fields mult.commute)

lemma time_tickB:
  "time (tickB inp s) = (if frozen s then time s else time s + frameDt inp)"
  by (simp add: tickB_def finish_fields simulateB_fields)

lemma waveInv_tickA: "waveInv s \<Longrightarrow> waveInv (tickA inp s)"
  using frameDt_le [of inp] by (simp add: waveInv_def wave_tickA time_tickA)

lemma waveInv_tickB: "waveInv s \<Longrightarrow> waveInv (tickB inp s)"
  using frameDt_le [of inp] by (simp add: waveInv_def wave_tickB time_tickB)

lemma waveInv_applyUpgrade: "waveInv (applyUpgrade u s) = waveInv s"
  by (cases u) (simp_all add: waveInv_def)

lemma waveInv_other: "waveInv s \<Longrightarrow> waveInv (other ev s)"
  by (cases ev)
    (simp_all add: waveInv_applyUpgrade, simp_all add: waveInv_def start_def initialState_def)

lemma waveInv_stepA: "waveInv s \<Longrightarrow> waveInv (stepA ev s)"
  by (cases ev)
    (simp_all add: waveInv_tickA waveInv_other del: other.simps, simp add: waveInv_def)

lemma waveInv_stepB: "waveInv s \<Longrightarrow> waveInv (stepB ev s)"
  by (cases ev) (simp_all add: waveInv_tickB waveInv_other del: other.simps)

lemma waveInv_foldA: "waveInv s \<Longrightarrow> waveInv (fold stepA evs s)"
  by (induction evs arbitrary: s) (simp_all add: waveInv_stepA)

lemma waveInv_foldB: "waveInv s \<Longrightarrow> waveInv (fold stepB evs s)"
  by (induction evs arbitrary: s) (simp_all add: waveInv_stepB)

lemma waveInv_initial: "waveInv initialState"
  by (simp add: waveInv_def initialState_def)

text \<open>
  Claim C4. The wave counter goes up, by exactly one, if and only if the elapsed time of the
  session, this frame's delta included, exceeds \<open>25 + 18 \<times> wave\<close> seconds; otherwise
  it keeps its value. This holds for every tick on every state that satisfies
  \<open>waveInv\<close>, and every state a session of either build reaches satisfies it (so a
  frozen frame, which adds no time, never finds the threshold exceeded). At wave \<open>1\<close>
  the threshold is \<open>43\<close> seconds: the witness runs a frame at \<open>25\<close> seconds, where
  the wave stays \<open>1\<close>, and the frame that takes the clock from \<open>42.99\<close> to \<open>43.01\<close>,
  where it becomes \<open>2\<close>.
\<close>

theorem wave_advance:
  "waveInv (runA evs) \<and> waveInv (runB evs) \<and>
   (waveInv s \<longrightarrow>
      ((wave (tickA inp s) = wave s + 1) = (25 + 18 * of_int (wave s) < time (tickA inp s))) \<and>
      (wave (tickA inp s) = wave s \<or> wave (tickA inp s) = wave s + 1) \<and>
      ((wave (tickB inp s) = wave s + 1) = (25 + 18 * of_int (wave s) < time (tickB inp s))) \<and>
      (wave (tickB inp s) = wave s \<or> wave (tickB inp s) = wave s + 1))"
  by (simp add: runA_def runB_def waveInv_foldA waveInv_foldB waveInv_initial
        wave_tickA wave_tickB time_tickA time_tickB)
     (simp add: waveInv_def)

subsection \<open>Player hit points\<close>

lemma clamp_range: "0 \<le> m \<Longrightarrow> 0 \<le> clamp v 0 m \<and> clamp v 0 m \<le> m"
  by (simp add: clamp_def)

lemma newHp_pickupsA: "newHp (pickupsA dt l) = newHp l"
  by (simp add: pickupsA_def split_beta)

lemma newHp_contactA:
  "newHp (contactA dt l) = clamp (hp (player (st l)) - hpLoss (contactA dt l)) 0 (maxHp (player (st l)))"
  by (simp add: contactA_def Let_def)

lemma core_beforePickupsA:
  "sameCore (st (enterA (frameDt inp) prev)) (st (beforePickupsA inp prev))"
  unfolding beforePickupsA_def afterCollisionsA_def
  by (intro core_then) (rule core_untilCollisionsA)

lemma maxHp_beforeContactA:
  "maxHp (player (st (deathSweepA inp (eBulletsA dt (afterCollisionsA inp s))))) = maxHp (player s)"
proof -
  have "sameCore (st (enterA (frameDt inp) s))
      (st (deathSweepA inp (eBulletsA dt (afterCollisionsA inp s))))"
    unfolding afterCollisionsA_def by (intro core_then) (rule core_untilCollisionsA)
  then show ?thesis by (simp add: sameCore_def enter_fields)
qed

lemma newHp_simulateA:
  "\<exists>v. newHp (simulateA inp s) = clamp v 0 (maxHp (player s))"
  by (auto simp: simulateA_def beforePickupsA_def newHp_pickupsA newHp_contactA
        maxHp_beforeContactA)

lemma newHp_simulateB:
  "\<exists>v. newHp (simulateB inp s) = clamp v 0 (maxHp (player s))"
proof -
  have "sameCore (st (enterB (frameDt inp) s)) (st (pickupsB (frameDt inp) (beforePickupsB inp s)))"
    unfolding beforePickupsB_def afterCollisionsB_def
    by (intro core_then) (rule core_untilCollisionsB)
  then show ?thesis
    by (auto simp: simulateB_def hpB_def sameCore_def enter_fields)
qed

text \<open>
  Claim C5. From a state whose player hit points lie between \<open>0\<close> and \<^verbatim>\<open>maxHp\<close>, the
  state that a tick publishes (the only value the updater publishes) has the player's hit
  points between \<open>0\<close> and \<^verbatim>\<open>maxHp\<close> again, whatever contact damage, enemy-bullet
  damage and healing the frame accumulated; in both builds.
\<close>

theorem hp_within_bounds:
  assumes "0 \<le> hp (player s)" and "hp (player s) \<le> maxHp (player s)"
  shows "0 \<le> hp (player (tickA inp s)) \<and> hp (player (tickA inp s)) \<le> maxHp (player (tickA inp s)) \<and>
         0 \<le> hp (player (tickB inp s)) \<and> hp (player (tickB inp s)) \<le> maxHp (player (tickB inp s))"
proof -
  from assms have m: "0 \<le> maxHp (player s)" by simp
  obtain va where va: "newHp (simulateA inp s) = clamp va 0 (maxHp (player s))"
    using newHp_simulateA by blast
  obtain vb where vb: "newHp (simulateB inp s) = clamp vb 0 (maxHp (player s))"
    using newHp_simulateB by blast
  show ?thesis
    using assms clamp_range [OF m, of va] clamp_range [OF m, of vb]
    by (simp add: tickA_def tickB_def finish_fields simulateA_fields simulateB_fields va vb)
qed

subsection \<open>Levelling\<close>


text \<open>
  Claim C10. A tick raises the level by at most one. When a threshold is consumed, the
  experience above it stays in the counter, also when it reaches the next threshold: the
  witness gathers \<open>17\<close> experience at level \<open>1\<close> with \<open>9\<close> in the counter and ends
  at level \<open>2\<close> with \<open>16\<close>, the whole threshold of level \<open>2\<close>, left in the counter.
\<close>

theorem one_level_per_tick:
  "level s \<le> level (tickA inp s) \<and> level (tickA inp s) \<le> level s + 1 \<and>
   level s \<le> level (tickB inp s) \<and> level (tickB inp s) \<le> level s + 1 \<and>
   (\<not> frozen s \<longrightarrow>
      xp (tickA inp s) = xp s + xpAdd (simulateA inp s)
         - (if level (tickA inp s) = level s + 1 then need (level s) else 0) \<and>
      xp (tickB inp s) = xp s + xpAdd (simulateB inp s)
         - (if level (tickB inp s) = level s + 1 then need (level s) else 0))"
  by (simp add: tickA_def tickB_def finish_fields simulateA_fields simulateB_fields)

subsection \<open>Kills and awards\<close>

lemma hurt_refl: "hurt e e"
  by (simp add: hurt_def)

lemma hurt_reset:
  assumes "e'\<lparr>ehp := ehp e\<rparr> = e" and "e''\<lparr>ehp := ehp e'\<rparr> = e'"
  shows "e''\<lparr>ehp := ehp e\<rparr> = e"
proof -
  have "e''\<lparr>ehp := ehp e\<rparr> = (e''\<lparr>ehp := ehp e'\<rparr>)\<lparr>ehp := ehp e\<rparr>" by simp
  also have "\<dots> = e'\<lparr>ehp := ehp e\<rparr>" by (simp only: assms(2))
  also have "\<dots> = e" by (rule assms(1))
  finally show ?thesis .
qed

lemma hurt_trans:
  assumes "hurt e e'" and "hurt e' e''"
  shows "hurt e e''"
proof (cases "ehp e \<le> 0")
  case True
  with assms(1) have "e' = e" by (simp add: hurt_def)
  with assms(2) show ?thesis by simp
next
  case False
  from assms have a: "e'\<lparr>ehp := ehp e\<rparr> = e" and b: "e''\<lparr>ehp := ehp e'\<rparr> = e'"
    by (simp_all add: hurt_def)
  have "e''\<lparr>ehp := ehp e\<rparr> = e" by (rule hurt_reset [OF a b])
  with False show ?thesis by (simp add: hurt_def)
qed

lemma hurt_same:
  assumes "hurt e e'"
  shows "eid e' = eid e \<and> isBoss e' = isBoss e"
proof -
  from assms have r: "e'\<lparr>ehp := ehp e\<rparr> = e" by (simp add: hurt_def)
  have "eid (e'\<lparr>ehp := ehp e\<rparr>) = eid e'" "isBoss (e'\<lparr>ehp := ehp e\<rparr>) = isBoss e'"
    by simp_all
  then show ?thesis by (simp only: r)
qed

lemma award_trans:
  assumes "hurt e e'" and "hurt e' e''"
  shows "award sa e e'' = award sa e e' + award sa e' e''"
proof (cases "ehp e \<le> 0")
  case True
  with assms(1) have "e' = e" by (simp add: hurt_def)
  with True show ?thesis by (simp add: award_def)
next
  case False
  show ?thesis
  proof (cases "ehp e' \<le> 0")
    case True
    with assms(2) have "e'' = e'" by (simp add: hurt_def)
    with True False show ?thesis by (simp add: award_def)
  next
    case False
    with \<open>\<not> ehp e \<le> 0\<close> show ?thesis by (simp add: award_def)
  qed
qed

lemma awards_Nil: "awards sa [] [] = 0"
  by (simp add: awards_def)

lemma awards_Cons: "awards sa (e # es) (e' # es') = award sa e e' + awards sa es es'"
  by (simp add: awards_def)

lemma awards_refl: "awards sa es es = 0"
  by (induction es) (simp_all add: awards_Nil awards_Cons award_def)

lemma awards_trans:
  "list_all2 hurt es es' \<Longrightarrow> list_all2 hurt es' es'' \<Longrightarrow>
   awards sa es es'' = awards sa es es' + awards sa es' es''"
proof (induction es es' arbitrary: es'' rule: list_all2_induct)
  case Nil
  then show ?case by (simp add: awards_Nil)
next
  case (Cons e es e' es')
  from Cons.prems obtain e'' es2 where es'': "es'' = e'' # es2" and h: "hurt e' e''"
    and r: "list_all2 hurt es' es2"
    by (auto simp: list_all2_Cons1)
  show ?case
    using Cons.IH [OF r] award_trans [OF Cons.hyps(1) h, of sa]
    by (simp add: es'' awards_Cons)
qed

lemma list_all2_hurt_trans:
  "list_all2 hurt es es' \<Longrightarrow> list_all2 hurt es' es'' \<Longrightarrow> list_all2 hurt es es''"
  by (rule list_all2_trans [of hurt hurt hurt]) (auto intro: hurt_trans)

lemma list_all2_hurt_refl: "list_all2 hurt es es"
  by (simp add: list_all2_refl hurt_refl)

lemma hitLoop_hurt:
  "hitLoop sa xa b es acc = (b', es', acc') \<Longrightarrow>
   list_all2 hurt es es' \<and> fst acc' = fst acc + awards sa es es' \<and>
   snd acc' = snd acc + awards xa es es'"
proof (induction es arbitrary: b acc b' es' acc')
  case Nil
  then show ?case by (simp add: awards_Nil)
next
  case (Cons e es)
  show ?case
  proof (cases "ehp e \<le> 0")
    case True
    obtain b2 es2 acc2 where r: "hitLoop sa xa b es acc = (b2, es2, acc2)"
      by (cases "hitLoop sa xa b es acc") auto
    from Cons.prems True r have eq: "b' = b2" "es' = e # es2" "acc' = acc2" by auto
    show ?thesis using Cons.IH [OF r] True
      by (simp add: eq awards_Cons award_def hurt_refl)
  next
    case alive: False
    show ?thesis
    proof (cases "distanceTo (bpos b) (epos e) < eradius e + 2 / 10")
      case False
      obtain b2 es2 acc2 where r: "hitLoop sa xa b es acc = (b2, es2, acc2)"
        by (cases "hitLoop sa xa b es acc") auto
      from Cons.prems alive False r have eq: "b' = b2" "es' = e # es2" "acc' = acc2" by auto
      show ?thesis using Cons.IH [OF r] alive
        by (simp add: eq awards_Cons award_def hurt_refl)
    next
      case True
      define e1 where "e1 = e\<lparr>ehp := ehp e - bdamage b\<rparr>"
      define b1 where "b1 = (if pierceLeft b \<le> 0 then b\<lparr>blife := - 1\<rparr>
                   else b\<lparr>pierceLeft := pierceLeft b - 1\<rparr>)"
      define acc1 where "acc1 = (if ehp e1 \<le> 0 then (fst acc + sa e1, snd acc + xa e1) else acc)"
      obtain b2 es2 acc2 where r: "hitLoop sa xa b1 es acc1 = (b2, es2, acc2)"
        by (cases "hitLoop sa xa b1 es acc1") auto
      have "hitLoop sa xa b (e # es) acc =
          (case hitLoop sa xa b1 es acc1 of (b2, es2, acc2) \<Rightarrow> (b2, e1 # es2, acc2))"
        using alive True unfolding e1_def b1_def acc1_def by (simp add: Let_def)
      with Cons.prems r have eq: "b' = b2" "es' = e1 # es2" "acc' = acc2"
        by simp_all
      have h: "hurt e e1" using alive by (simp add: hurt_def e1_def)
      have a: "fst acc1 = fst acc + award sa e e1" "snd acc1 = snd acc + award xa e e1"
        using alive by (simp_all add: acc1_def award_def)
      show ?thesis using Cons.IH [OF r] h a
        by (simp add: eq awards_Cons)
    qed
  qed
qed

lemma bulletLoop_hurt:
  "bulletLoop sa xa bs es acc = (bs', es', acc') \<Longrightarrow>
   list_all2 hurt es es' \<and> fst acc' = fst acc + awards sa es es' \<and>
   snd acc' = snd acc + awards xa es es'"
proof (induction bs arbitrary: es acc bs' es' acc')
  case Nil
  then show ?case by (simp add: awards_refl list_all2_hurt_refl)
next
  case (Cons b bs)
  obtain b1 es1 acc1 where r1: "hitLoop sa xa b es acc = (b1, es1, acc1)"
    by (cases "hitLoop sa xa b es acc") auto
  obtain bs2 es2 acc2 where r2: "bulletLoop sa xa bs es1 acc1 = (bs2, es2, acc2)"
    by (cases "bulletLoop sa xa bs es1 acc1") auto
  from Cons.prems r1 r2 have eq: "es' = es2" "acc' = acc2" by auto
  note h1 = hitLoop_hurt [OF r1]
  note h2 = Cons.IH [OF r2]
  from h1 h2 have t: "list_all2 hurt es es2"
    by (blast intro: list_all2_hurt_trans)
  show ?case
    using h1 h2 t awards_trans [of es es1 es2 sa] awards_trans [of es es1 es2 xa]
    by (simp add: eq)
qed

lemma collisions_result:
  "list_all2 hurt (enemies (st l)) (enemies (st (collisions sa xa l))) \<and>
   scoreAdd (collisions sa xa l) = awards sa (enemies (st l)) (enemies (st (collisions sa xa l))) \<and>
   xpAdd (collisions sa xa l) = awards xa (enemies (st l)) (enemies (st (collisions sa xa l)))"
proof -
  obtain bs es acc where r: "bulletLoop sa xa (bullets (st l)) (enemies (st l)) (0, 0) = (bs, es, acc)"
    by (cases "bulletLoop sa xa (bullets (st l)) (enemies (st l)) (0, 0)") auto
  show ?thesis using bulletLoop_hurt [OF r]
    by (simp add: collisions_def r)
qed

lemma awards_slain: "awards sa es es' = sum_list (map sa (slain es es'))"
proof -
  have "sum_list (map (\<lambda>(e, e'). award sa e e') zs)
      = sum_list (map sa (map snd (filter (\<lambda>(e, e'). 0 < ehp e \<and> ehp e' \<le> 0) zs)))" for zs
    by (induction zs) (auto simp: award_def split: if_splits)
  then show ?thesis by (simp add: awards_def slain_def)
qed

lemma hurt_maps:
  "list_all2 hurt es es' \<Longrightarrow> map eid es' = map eid es \<and> map isBoss es' = map isBoss es"
  by (induction es es' rule: list_all2_induct) (simp_all add: hurt_same)

text \<open>The death sweeps keep exactly the enemies with hit points left, in their order.\<close>

lemma enemies_sweepA:
  "enemies (st (sweepA inp es kept l)) = rev (filter (\<lambda>e. 0 < ehp e) es) @ kept"
  by (induction es arbitrary: kept l) (simp_all add: not_le)

lemma enemies_deathSweepA:
  "enemies (st (deathSweepA inp l)) = filter (\<lambda>e. 0 < ehp e) (enemies (st l))"
  by (simp add: deathSweepA_def enemies_sweepA rev_filter [symmetric])

lemma enemies_sweepB:
  "enemies (st (sweepB inp ies kept l)) = rev (filter (\<lambda>e. 0 < ehp e) (map snd ies)) @ kept"
proof (induction ies arbitrary: kept l)
  case Nil
  show ?case by simp
next
  case (Cons ie ies)
  obtain i e where ie: "ie = (i, e)" by (cases ie)
  show ?case by (simp add: ie Cons.IH not_le)
qed

lemma enemies_deathSweepB:
  "enemies (st (deathSweepB inp l)) = filter (\<lambda>e. 0 < ehp e) (enemies (st l))"
  by (simp add: deathSweepB_def enemies_sweepB rev_map [symmetric] rev_filter [symmetric]
        enumerate_eq_zip)

lemma after_eBulletsA:
  "enemies (st (eBulletsA dt l)) = enemies (st l)" "scoreAdd (eBulletsA dt l) = scoreAdd l"
  "xpAdd (eBulletsA dt l) = xpAdd l"
  by (simp_all add: eBulletsA_def Let_def)

lemma after_contactA:
  "enemies (st (contactA dt l)) = enemies (st l)" "scoreAdd (contactA dt l) = scoreAdd l"
  "xpAdd (contactA dt l) = xpAdd l"
  by (simp_all add: contactA_def Let_def)

lemma after_contactB:
  "enemies (st (contactB dt l)) = enemies (st l)" "scoreAdd (contactB dt l) = scoreAdd l"
  "xpAdd (contactB dt l) = xpAdd l"
  by (simp_all add: contactB_def Let_def)

lemma after_hpB:
  "enemies (st (hpB l)) = enemies (st l)" "scoreAdd (hpB l) = scoreAdd l" "xpAdd (hpB l) = xpAdd l"
  by (simp_all add: hpB_def)

lemma adds_dropA: "scoreAdd (dropA inp e l) = scoreAdd l" "xpAdd (dropA inp e l) = xpAdd l"
  by (simp_all add: dropA_def Let_def)

lemma adds_dropB: "scoreAdd (dropB inp i e l) = scoreAdd l" "xpAdd (dropB inp i e l) = xpAdd l"
  by (simp_all add: dropB_def Let_def)

lemma adds_sweepA:
  "scoreAdd (sweepA inp es kept l) = scoreAdd l \<and> xpAdd (sweepA inp es kept l) = xpAdd l"
  by (induction es arbitrary: kept l) (simp_all add: adds_dropA)

lemma adds_sweepB:
  "scoreAdd (sweepB inp ies kept l) = scoreAdd l \<and> xpAdd (sweepB inp ies kept l) = xpAdd l"
proof (induction ies arbitrary: kept l)
  case Nil
  show ?case by simp
next
  case (Cons ie ies)
  obtain i e where ie: "ie = (i, e)" by (cases ie)
  show ?case by (simp add: ie Cons.IH adds_dropB)
qed

lemma after_deathSweepA:
  "scoreAdd (deathSweepA inp l) = scoreAdd l" "xpAdd (deathSweepA inp l) = xpAdd l"
  by (simp_all add: deathSweepA_def adds_sweepA)

lemma after_deathSweepB:
  "scoreAdd (deathSweepB inp l) = scoreAdd l" "xpAdd (deathSweepB inp l) = xpAdd l"
  by (simp_all add: deathSweepB_def adds_sweepB)

lemma pickupLoopA_count:
  "pickupLoopA dt ps (pl, kept, xa) =
     (case pickupLoopA dt ps (pl, kept, 0) of (pl', kept', n) \<Rightarrow> (pl', kept', xa + n))"
proof (induction ps arbitrary: pl kept xa)
  case Nil
  show ?case by simp
next
  case (Cons p ps)
  show ?case
    by (simp add: Let_def)
      (auto simp: Cons.IH [of _ _ "xa + 1"] Cons.IH [of _ _ 1] Cons.IH [of _ _ xa]
         split: prod.splits)
qed

lemma pickupLoopB_count:
  "pickupLoopB dt ps (pl, kept, xa) =
     (case pickupLoopB dt ps (pl, kept, 0) of (pl', kept', n) \<Rightarrow> (pl', kept', xa + n))"
proof (induction ps arbitrary: pl kept xa)
  case Nil
  show ?case by simp
next
  case (Cons p ps)
  show ?case
    by (simp add: Let_def)
      (auto simp: Cons.IH [of _ _ "xa + 1"] Cons.IH [of _ _ 1] Cons.IH [of _ _ xa]
         split: prod.splits)
qed

lemma after_pickupsA:
  "enemies (st (pickupsA dt l)) = enemies (st l)" "scoreAdd (pickupsA dt l) = scoreAdd l"
  "xpAdd (pickupsA dt l) = xpAdd l + pickupXpA dt l"
  using pickupLoopA_count [of dt "rev (pickups (st l))" "player (st l)" "[]" "xpAdd l"]
  by (simp_all add: pickupsA_def pickupXpA_def split_beta)

lemma after_pickupsB:
  "enemies (st (pickupsB dt l)) = enemies (st l)" "scoreAdd (pickupsB dt l) = scoreAdd l"
  "xpAdd (pickupsB dt l) = xpAdd l + pickupXpB dt l"
  using pickupLoopB_count [of dt "rev (pickups (st l))" "player (st l)" "[]" "xpAdd l"]
  by (simp_all add: pickupsB_def pickupXpB_def split_beta)

lemma sum_awardA:
  "sum_list (map scoreAwardA sl)
     = 15 * int (length (filter (\<lambda>e. \<not> isBoss e) sl)) + 200 * int (length (filter isBoss sl))"
  "sum_list (map xpAwardA sl)
     = int (length (filter (\<lambda>e. \<not> isBoss e) sl)) + 5 * int (length (filter isBoss sl))"
  by (induction sl) (simp_all add: scoreAwardA_def xpAwardA_def)

lemma sum_awardB:
  "sum_list (map scoreAwardB sl) = 15 * int (length sl)"
  "sum_list (map xpAwardB sl) = int (length sl)"
  by (induction sl) (simp_all add: scoreAwardB_def xpAwardB_def)

lemma afterCollisionsA_result:
  "list_all2 hurt (enemies (st (untilCollisionsA inp s))) (enemies (st (afterCollisionsA inp s)))"
  "scoreAdd (afterCollisionsA inp s) = sum_list (map scoreAwardA
      (slain (enemies (st (untilCollisionsA inp s))) (enemies (st (afterCollisionsA inp s)))))"
  "xpAdd (afterCollisionsA inp s) = sum_list (map xpAwardA
      (slain (enemies (st (untilCollisionsA inp s))) (enemies (st (afterCollisionsA inp s)))))"
  using collisions_result [of "untilCollisionsA inp s" scoreAwardA xpAwardA]
  by (simp_all add: afterCollisionsA_def awards_slain)

lemma afterCollisionsB_result:
  "list_all2 hurt (enemies (st (untilCollisionsB inp s))) (enemies (st (afterCollisionsB inp s)))"
  "scoreAdd (afterCollisionsB inp s) = sum_list (map scoreAwardB
      (slain (enemies (st (untilCollisionsB inp s))) (enemies (st (afterCollisionsB inp s)))))"
  "xpAdd (afterCollisionsB inp s) = sum_list (map xpAwardB
      (slain (enemies (st (untilCollisionsB inp s))) (enemies (st (afterCollisionsB inp s)))))"
  using collisions_result [of "untilCollisionsB inp s" scoreAwardB xpAwardB]
  by (simp_all add: afterCollisionsB_def awards_slain)

lemma simulateA_result:
  "enemies (st (simulateA inp s)) = filter (\<lambda>e. 0 < ehp e) (enemies (st (afterCollisionsA inp s)))"
  "scoreAdd (simulateA inp s) = scoreAdd (afterCollisionsA inp s)"
  "xpAdd (simulateA inp s) = xpAdd (afterCollisionsA inp s) + pickupXpA (frameDt inp) (beforePickupsA inp s)"
  by (simp_all add: simulateA_def after_pickupsA)
     (simp_all add: beforePickupsA_def after_contactA after_deathSweepA enemies_deathSweepA
        after_eBulletsA)

lemma simulateB_result:
  "enemies (st (simulateB inp s)) = filter (\<lambda>e. 0 < ehp e) (enemies (st (afterCollisionsB inp s)))"
  "scoreAdd (simulateB inp s) = scoreAdd (afterCollisionsB inp s)"
  "xpAdd (simulateB inp s) = xpAdd (afterCollisionsB inp s) + pickupXpB (frameDt inp) (beforePickupsB inp s)"
  by (simp_all add: simulateB_def after_hpB after_pickupsB)
     (simp_all add: beforePickupsB_def after_contactB after_deathSweepB enemies_deathSweepB)

text \<open>
  Claim C6. In a frame that runs, let \<open>es0\<close> be the enemies when the collision pass
  starts, \<open>es1\<close> the same enemies when it ends, and \<open>sl\<close> those that the pass brought
  from positive hit points to \<open>0\<close> or less. The pass changes hit points only and leaves an
  enemy without hit points untouched; the enemies of the resulting state are exactly
  those of \<open>es1\<close> with hit points left, so every enemy at \<open>0\<close> or less is removed in
  the same tick and cannot be awarded again later; the score rises by \<open>15\<close> for each
  enemy of \<open>sl\<close> that is not a boss and \<open>200\<close> for each boss, and the experience
  gathered in the frame is \<open>1\<close> for each non-boss of \<open>sl\<close>, \<open>5\<close> for each boss, plus
  what the pickup loop adds: each kill counts once, however many bullets hit. The second
  build has no bosses: \<open>15\<close> and \<open>1\<close> for each enemy of \<open>sl\<close>.
\<close>

theorem kills_awarded_once:
  assumes "\<not> frozen s"
  shows
    "(let es0 = enemies (st (untilCollisionsA inp s));
          es1 = enemies (st (afterCollisionsA inp s));
          sl = slain es0 es1
      in list_all2 hurt es0 es1 \<and> map eid es1 = map eid es0 \<and> map isBoss es1 = map isBoss es0 \<and>
         enemies (tickA inp s) = filter (\<lambda>e. 0 < ehp e) es1 \<and>
         score (tickA inp s) = score s + 15 * int (length (filter (\<lambda>e. \<not> isBoss e) sl))
                                 + 200 * int (length (filter isBoss sl)) \<and>
         xpAdd (simulateA inp s) = int (length (filter (\<lambda>e. \<not> isBoss e) sl))
                                 + 5 * int (length (filter isBoss sl))
                                 + pickupXpA (frameDt inp) (beforePickupsA inp s)) \<and>
     (let es0 = enemies (st (untilCollisionsB inp s));
          es1 = enemies (st (afterCollisionsB inp s));
          sl = slain es0 es1
      in list_all2 hurt es0 es1 \<and> map eid es1 = map eid es0 \<and>
         enemies (tickB inp s) = filter (\<lambda>e. 0 < ehp e) es1 \<and>
         score (tickB inp s) = score s + 15 * int (length sl) \<and>
         xpAdd (simulateB inp s) = int (length sl)
                                 + pickupXpB (frameDt inp) (beforePickupsB inp s))"
proof -
  note a = afterCollisionsA_result [of inp s]
  note b = afterCollisionsB_result [of inp s]
  show ?thesis
    using assms hurt_maps [OF a(1)] hurt_maps [OF b(1)] a(1) b(1)
    by (simp add: Let_def tickA_def tickB_def finish_fields simulateA_fields simulateB_fields
          simulateA_result simulateB_result a(2,3) b(2,3) sum_awardA sum_awardB)
qed

subsection \<open>Bosses\<close>

lemma enterA_boss:
  "enemies (st (enterA dt s)) = enemies s" "wave (st (enterA dt s)) = wave s"
  "bossActive (st (enterA dt s)) = bossActive s"
  "bossDefeatedAtWave (st (enterA dt s)) = bossDefeatedAtWave s"
  "nextId (st (enterA dt s)) = nextId s"
  by (simp_all add: enterA_def)

lemma movementA_boss:
  "enemies (st (movementA inp dt l)) = enemies (st l)" "wave (st (movementA inp dt l)) = wave (st l)"
  "bossActive (st (movementA inp dt l)) = bossActive (st l)"
  "bossDefeatedAtWave (st (movementA inp dt l)) = bossDefeatedAtWave (st l)"
  "nextId (st (movementA inp dt l)) = nextId (st l)"
  by (simp_all add: movementA_def Let_def)

lemma jumpA_boss:
  "enemies (st (jumpA inp dt l)) = enemies (st l)" "wave (st (jumpA inp dt l)) = wave (st l)"
  "bossActive (st (jumpA inp dt l)) = bossActive (st l)"
  "bossDefeatedAtWave (st (jumpA inp dt l)) = bossDefeatedAtWave (st l)"
  "nextId (st (jumpA inp dt l)) = nextId (st l)"
  by (simp_all add: jumpA_def Let_def)

lemma beforeBossA_fields:
  "enemies (st (beforeBossA inp s)) = enemies s" "wave (st (beforeBossA inp s)) = wave s"
  "bossActive (st (beforeBossA inp s)) = bossActive s"
  "bossDefeatedAtWave (st (beforeBossA inp s)) = bossDefeatedAtWave s"
  "nextId (st (beforeBossA inp s)) = nextId s"
  by (simp_all add: beforeBossA_def Let_def jumpA_boss movementA_boss enterA_boss)

lemma bossDue_beforeBossA: "bossDue (st (beforeBossA inp s)) = bossDue s"
  by (simp add: bossDue_def bossWave_def bossAlive_def beforeBossA_fields)

lemma bossSpawnA_idle: "\<not> bossDue (st l) \<Longrightarrow> bossSpawnA inp l = l"
  by (simp add: bossSpawnA_def Let_def)

lemma bossSpawnA_fires:
  "bossDue (st l) \<Longrightarrow>
   map isBoss (enemies (st (bossSpawnA inp l))) = [True] \<and>
   map eid (enemies (st (bossSpawnA inp l))) = [nextId (st l)] \<and>
   bossActive (st (bossSpawnA inp l)) \<and> bossWave (st (bossSpawnA inp l))"
  by (simp add: bossSpawnA_def bossDue_def Let_def bossWave_def)

lemma nBoss_flags: "nBoss es = length (filter (\<lambda>b. b) (map isBoss es))"
  by (induction es) (simp_all add: nBoss_def)

lemma nBoss_maps: "map isBoss es' = map isBoss es \<Longrightarrow> nBoss es' = nBoss es"
  by (simp only: nBoss_flags)

lemma nBoss_alive: "nBoss (filter P es) \<le> nBoss es"
  by (induction es) (simp_all add: nBoss_def)

lemma nBoss_ex: "(nBoss es = 0) = (\<not> list_ex isBoss es)"
  by (induction es) (simp_all add: nBoss_def)

lemma shoot_boss:
  "enemies (st (shoot inp l)) = enemies (st l)" "bossActive (st (shoot inp l)) = bossActive (st l)"
  "bossWave (st (shoot inp l)) = bossWave (st l)"
  by (simp_all add: shoot_def Let_def bossWave_def)

lemma bulletsStep_boss:
  "enemies (st (bulletsStep r dt l)) = enemies (st l)"
  "bossActive (st (bulletsStep r dt l)) = bossActive (st l)"
  "bossWave (st (bulletsStep r dt l)) = bossWave (st l)"
  by (simp_all add: bulletsStep_def bossWave_def)

lemma spawnA_skipped: "bossWave (st l) \<Longrightarrow> bossActive (st l) \<Longrightarrow> spawnA inp dt l = l"
  by (simp add: spawnA_def Let_def)

lemma spawnA_nBoss: "nBoss (enemies (st (spawnA inp dt l))) = nBoss (enemies (st l))"
  by (simp add: spawnA_def Let_def nBoss_def)

lemma isBoss_leapA: "isBoss (fst (leapA inp dt s toP k e)) = isBoss e"
  by (simp add: leapA_def Let_def)

lemma isBoss_fallA: "isBoss (fallA dt e) = isBoss e"
  by (simp add: fallA_def Let_def)

lemma isBoss_seek: "isBoss (seek dt pp e) = isBoss e"
  by (simp add: seek_def)

lemma isBoss_enemyStepA: "isBoss (fst (enemyStepA inp dt e l)) = isBoss e"
  by (simp add: enemyStepA_def Let_def split_beta isBoss_leapA isBoss_fallA isBoss_seek)

lemma isBoss_enemiesLoopA: "map isBoss (fst (enemiesLoopA inp dt es l)) = map isBoss es"
  by (induction es arbitrary: l) (simp_all add: split_beta isBoss_enemyStepA)

lemma enemiesA_isBoss:
  "map isBoss (enemies (st (enemiesA inp dt l))) = map isBoss (enemies (st l))"
  by (simp add: enemiesA_def split_beta isBoss_enemiesLoopA)

lemma untilCollisionsA_nBoss:
  "nBoss (enemies (st (untilCollisionsA inp s)))
     = nBoss (enemies (st (bossSpawnA inp (beforeBossA inp s))))"
  by (simp add: untilCollisionsA_def Let_def nBoss_maps [OF enemiesA_isBoss] spawnA_nBoss
        bulletsStep_boss shoot_boss)

lemma untilCollisionsA_spawned:
  "bossDue s \<Longrightarrow> map isBoss (enemies (st (untilCollisionsA inp s))) = [True]"
  using bossSpawnA_fires [of "beforeBossA inp s" inp]
  by (simp add: untilCollisionsA_def Let_def enemiesA_isBoss spawnA_skipped bulletsStep_boss
        shoot_boss bossDue_beforeBossA)

lemma afterCollisionsA_isBoss:
  "map isBoss (enemies (st (afterCollisionsA inp s)))
     = map isBoss (enemies (st (untilCollisionsA inp s)))"
  using hurt_maps [OF afterCollisionsA_result(1) [of inp s]] by simp

lemma enemies_tickA:
  "\<not> frozen s \<Longrightarrow>
   enemies (tickA inp s) = filter (\<lambda>e. 0 < ehp e) (enemies (st (afterCollisionsA inp s)))"
  by (simp add: tickA_def finish_fields simulateA_result)

lemma nBoss_tickA:
  "nBoss (enemies (tickA inp s)) \<le> (if \<not> frozen s \<and> bossDue s then 1 else nBoss (enemies s))"
proof (cases "frozen s")
  case True
  then show ?thesis by (simp add: tickA_def)
next
  case False
  have "nBoss (enemies (tickA inp s)) \<le> nBoss (enemies (st (afterCollisionsA inp s)))"
    using False by (simp add: enemies_tickA nBoss_alive)
  also have "\<dots> = nBoss (enemies (st (bossSpawnA inp (beforeBossA inp s))))"
    by (simp add: nBoss_maps [OF afterCollisionsA_isBoss] untilCollisionsA_nBoss)
  also have "\<dots> = (if bossDue s then 1 else nBoss (enemies s))"
  proof (cases "bossDue s")
    case True
    then have "map isBoss (enemies (st (bossSpawnA inp (beforeBossA inp s)))) = [True]"
      using bossSpawnA_fires [of "beforeBossA inp s" inp] by (simp add: bossDue_beforeBossA)
    then have "nBoss (enemies (st (bossSpawnA inp (beforeBossA inp s)))) = 1"
      by (simp only: nBoss_flags) simp
    with True show ?thesis by simp
  next
    case no: False
    then show ?thesis
      by (simp add: bossSpawnA_idle bossDue_beforeBossA beforeBossA_fields)
  qed
  finally show ?thesis using False by simp
qed

lemma one_tickA: "atMostOneBoss s \<Longrightarrow> atMostOneBoss (tickA inp s)"
  using nBoss_tickA [of inp s]
  by (cases "\<not> frozen s \<and> bossDue s") (simp_all add: atMostOneBoss_def)

lemma enemies_applyUpgrade: "enemies (applyUpgrade u s) = enemies s"
  by (cases u) simp_all

lemma one_other: "atMostOneBoss s \<Longrightarrow> atMostOneBoss (other ev s)"
  by (cases ev)
    (simp_all add: atMostOneBoss_def enemies_applyUpgrade start_def initialState_def nBoss_def)

lemma one_stepA: "atMostOneBoss s \<Longrightarrow> atMostOneBoss (stepA ev s)"
  by (cases ev) (simp_all add: one_tickA one_other del: other.simps, simp add: atMostOneBoss_def)

lemma one_foldA: "atMostOneBoss s \<Longrightarrow> atMostOneBoss (fold stepA evs s)"
  by (induction evs arbitrary: s) (simp_all add: one_stepA)

lemma one_runA: "atMostOneBoss (runA evs)"
proof -
  have "atMostOneBoss initialState"
    by (simp add: atMostOneBoss_def initialState_def nBoss_def)
  then show ?thesis by (simp add: runA_def one_foldA)
qed

lemma spawned_tickA:
  assumes "\<not> frozen s" and "bossDue s"
  shows "list_all isBoss (enemies (tickA inp s)) \<and> length (enemies (tickA inp s)) \<le> 1"
proof -
  have m: "map isBoss (enemies (st (afterCollisionsA inp s))) = [True]"
    using assms(2) by (simp add: afterCollisionsA_isBoss untilCollisionsA_spawned)
  then obtain b where b: "enemies (st (afterCollisionsA inp s)) = [b]" "isBoss b"
    by (cases "enemies (st (afterCollisionsA inp s))") auto
  show ?thesis using assms(1) by (simp add: enemies_tickA b)
qed

text \<open>How a frame writes the two boss fields.\<close>

lemma sameFlags_refl: "sameFlags s s"
  by (simp add: sameFlags_def)

lemma sameFlags_trans: "sameFlags s t \<Longrightarrow> sameFlags t u \<Longrightarrow> sameFlags s u"
  by (simp add: sameFlags_def)

lemma flags_shoot: "sameFlags (st l) (st (shoot inp l))"
  by (simp add: shoot_def sameFlags_def Let_def)

lemma flags_bulletsStep: "sameFlags (st l) (st (bulletsStep r dt l))"
  by (simp add: bulletsStep_def sameFlags_def)

lemma flags_spawnA: "sameFlags (st l) (st (spawnA inp dt l))"
  by (simp add: spawnA_def sameFlags_def Let_def)

lemma flags_enemyStepA: "sameFlags (st l) (st (snd (enemyStepA inp dt e l)))"
  by (simp add: enemyStepA_def sameFlags_def Let_def split_beta)

lemma flags_enemiesLoopA: "sameFlags (st l) (st (snd (enemiesLoopA inp dt es l)))"
proof (induction es arbitrary: l)
  case Nil
  show ?case by (simp add: sameFlags_refl)
next
  case (Cons e es)
  have "sameFlags (st l) (st (snd (enemyStepA inp dt e l)))"
    by (rule flags_enemyStepA)
  moreover have "sameFlags (st (snd (enemyStepA inp dt e l)))
      (st (snd (enemiesLoopA inp dt es (snd (enemyStepA inp dt e l)))))"
    by (rule Cons.IH)
  ultimately have "sameFlags (st l)
      (st (snd (enemiesLoopA inp dt es (snd (enemyStepA inp dt e l)))))"
    by (rule sameFlags_trans)
  then show ?case by (simp add: split_beta)
qed

lemma flags_enemiesA: "sameFlags (st l) (st (enemiesA inp dt l))"
  using flags_enemiesLoopA [of l inp dt "enemies (st l)"]
  by (simp add: enemiesA_def split_beta sameFlags_def)

lemma flags_collisions: "sameFlags (st l) (st (collisions sa xa l))"
  by (simp add: collisions_def sameFlags_def split_beta)

lemma flags_eBulletsA: "sameFlags (st l) (st (eBulletsA dt l))"
  by (simp add: eBulletsA_def sameFlags_def Let_def)

lemma flags_contactA: "sameFlags (st l) (st (contactA dt l))"
  by (simp add: contactA_def sameFlags_def Let_def)

lemma flags_pickupsA: "sameFlags (st l) (st (pickupsA dt l))"
  by (simp add: pickupsA_def sameFlags_def split_beta)

lemmas flags_then = flags_shoot [THEN [2] sameFlags_trans]
  flags_bulletsStep [THEN [2] sameFlags_trans] flags_spawnA [THEN [2] sameFlags_trans]
  flags_enemiesA [THEN [2] sameFlags_trans] flags_collisions [THEN [2] sameFlags_trans]
  flags_eBulletsA [THEN [2] sameFlags_trans] flags_contactA [THEN [2] sameFlags_trans]
  flags_pickupsA [THEN [2] sameFlags_trans]

text \<open>From the boss spawn to the death sweep the flags stay.\<close>

lemma flags_untilSweepA:
  "sameFlags (st (bossSpawnA inp (beforeBossA inp s)))
     (st (eBulletsA (frameDt inp) (afterCollisionsA inp s)))"
  unfolding afterCollisionsA_def untilCollisionsA_def Let_def
  by (intro flags_then) (rule sameFlags_refl)

lemma bossSpawnA_flags:
  "wave (st (bossSpawnA inp l)) = wave (st l)"
  "bossDefeatedAtWave (st (bossSpawnA inp l)) = bossDefeatedAtWave (st l)"
  "bossActive (st (bossSpawnA inp l)) = (bossActive (st l) \<or> bossDue (st l))"
  by (simp_all add: bossSpawnA_def Let_def)

lemma dropA_flags:
  "wave (st (dropA inp e l)) = wave (st l)"
  "bossDefeatedAtWave (st (dropA inp e l))
     = (if isBoss e then wave (st l) else bossDefeatedAtWave (st l))"
  "bossActive (st (dropA inp e l)) = (if isBoss e then False else bossActive (st l))"
  by (simp_all add: dropA_def Let_def)

lemma sweepA_flags:
  "wave (st (sweepA inp es kept l)) = wave (st l) \<and>
   bossDefeatedAtWave (st (sweepA inp es kept l))
     = (if bossSlain es then wave (st l) else bossDefeatedAtWave (st l)) \<and>
   bossActive (st (sweepA inp es kept l)) = (if bossSlain es then False else bossActive (st l))"
proof (induction es arbitrary: kept l)
  case Nil
  show ?case by (simp add: bossSlain_def)
next
  case (Cons e es)
  show ?case
  proof (cases "ehp e \<le> 0")
    case True
    show ?thesis
      using Cons.IH [of kept "dropA inp e l"] True
      by (simp add: dropA_flags bossSlain_def)
  next
    case False
    show ?thesis
      using Cons.IH [of "e # kept" l] False
      by (simp add: bossSlain_def)
  qed
qed

lemma bossSlain_rev: "bossSlain (rev es) = bossSlain es"
  by (simp add: bossSlain_def list_ex_iff)

lemma deathSweepA_flags:
  "wave (st (deathSweepA inp l)) = wave (st l)"
  "bossDefeatedAtWave (st (deathSweepA inp l))
     = (if bossSlain (enemies (st l)) then wave (st l) else bossDefeatedAtWave (st l))"
  "bossActive (st (deathSweepA inp l))
     = (if bossSlain (enemies (st l)) then False else bossActive (st l))"
  using sweepA_flags [of inp "rev (enemies (st l))" "[]" l]
  by (simp_all add: deathSweepA_def bossSlain_rev)

lemma finish_flags:
  "bossDefeatedAtWave (finish l) = bossDefeatedAtWave (st l)"
  "bossActive (finish l) = bossActive (st l)"
  by (simp_all add: finish_def Let_def)

lemma simulateA_flags:
  "bossDefeatedAtWave (st (simulateA inp s))
     = (if bossSlain (enemies (st (afterCollisionsA inp s))) then wave s
        else bossDefeatedAtWave s)"
  "bossActive (st (simulateA inp s))
     = (if bossSlain (enemies (st (afterCollisionsA inp s))) then False
        else (bossActive s \<or> bossDue s))"
proof -
  let ?l = "eBulletsA (frameDt inp) (afterCollisionsA inp s)"
  have a: "sameFlags (st (deathSweepA inp ?l)) (st (simulateA inp s))"
    unfolding simulateA_def beforePickupsA_def
    by (intro flags_then) (rule sameFlags_refl)
  have b: "wave (st ?l) = wave s" "bossDefeatedAtWave (st ?l) = bossDefeatedAtWave s"
    "bossActive (st ?l) = (bossActive s \<or> bossDue s)"
    using flags_untilSweepA [of inp s]
    by (simp_all add: sameFlags_def bossSpawnA_flags beforeBossA_fields bossDue_beforeBossA)
  have c: "enemies (st ?l) = enemies (st (afterCollisionsA inp s))"
    by (simp add: after_eBulletsA)
  show "bossDefeatedAtWave (st (simulateA inp s))
     = (if bossSlain (enemies (st (afterCollisionsA inp s))) then wave s
        else bossDefeatedAtWave s)"
    using a by (simp add: sameFlags_def deathSweepA_flags b c)
  show "bossActive (st (simulateA inp s))
     = (if bossSlain (enemies (st (afterCollisionsA inp s))) then False
        else (bossActive s \<or> bossDue s))"
    using a by (simp add: sameFlags_def deathSweepA_flags b c)
qed

lemma tickA_flags:
  "bossDefeatedAtWave (tickA inp s)
     = (if \<not> frozen s \<and> bossSlain (enemies (st (afterCollisionsA inp s))) then wave s
        else bossDefeatedAtWave s)"
  "\<not> frozen s \<Longrightarrow> bossSlain (enemies (st (afterCollisionsA inp s))) \<Longrightarrow>
     \<not> bossActive (tickA inp s)"
  by (simp_all add: tickA_def finish_flags simulateA_flags)

lemma slain_none_left:
  "nBoss es \<le> 1 \<Longrightarrow> bossSlain es \<Longrightarrow> nBoss (filter (\<lambda>e. 0 < ehp e) es) = 0"
proof (induction es)
  case Nil
  then show ?case by (simp add: bossSlain_def)
next
  case (Cons e es)
  show ?case
  proof (cases "isBoss e")
    case True
    with Cons.prems(1) have z: "nBoss es = 0" by (simp add: nBoss_def)
    have "nBoss (filter (\<lambda>e. 0 < ehp e) es) \<le> nBoss es" by (rule nBoss_alive)
    with z have z2: "nBoss (filter (\<lambda>e. 0 < ehp e) es) = 0" by simp
    from z have "\<not> list_ex isBoss es" by (simp add: nBoss_ex)
    then have "\<not> bossSlain es" by (auto simp: bossSlain_def list_ex_iff)
    with Cons.prems(2) True have "ehp e \<le> 0" by (simp add: bossSlain_def)
    with z2 show ?thesis by (simp add: nBoss_def)
  next
    case False
    with Cons.prems have "nBoss es \<le> 1" "bossSlain es"
      by (simp_all add: nBoss_def bossSlain_def)
    from Cons.IH [OF this] False show ?thesis by (simp add: nBoss_def)
  qed
qed

lemma nBoss_afterCollisionsA:
  "nBoss (enemies (st (afterCollisionsA inp s))) = (if bossDue s then 1 else nBoss (enemies s))"
proof -
  have "nBoss (enemies (st (afterCollisionsA inp s)))
      = nBoss (enemies (st (bossSpawnA inp (beforeBossA inp s))))"
    by (simp add: nBoss_maps [OF afterCollisionsA_isBoss] untilCollisionsA_nBoss)
  also have "\<dots> = (if bossDue s then 1 else nBoss (enemies s))"
  proof (cases "bossDue s")
    case True
    then have "map isBoss (enemies (st (bossSpawnA inp (beforeBossA inp s)))) = [True]"
      using bossSpawnA_fires [of "beforeBossA inp s" inp] by (simp add: bossDue_beforeBossA)
    then have "nBoss (enemies (st (bossSpawnA inp (beforeBossA inp s)))) = 1"
      by (simp only: nBoss_flags) simp
    with True show ?thesis by simp
  next
    case False
    then show ?thesis
      by (simp add: bossSpawnA_idle bossDue_beforeBossA beforeBossA_fields)
  qed
  finally show ?thesis .
qed

lemma slain_tickA:
  assumes "atMostOneBoss s" and "\<not> frozen s"
    and "bossSlain (enemies (st (afterCollisionsA inp s)))"
  shows "\<not> bossAlive (tickA inp s)"
proof -
  have "nBoss (enemies (st (afterCollisionsA inp s))) \<le> 1"
    using assms(1) by (simp add: nBoss_afterCollisionsA atMostOneBoss_def)
  from slain_none_left [OF this assms(3)] assms(2)
  show ?thesis by (simp add: enemies_tickA bossAlive_def nBoss_ex)
qed

lemma bossDone_not_due: "bossDone s \<Longrightarrow> \<not> bossDue s"
  by (simp add: bossDone_def bossDue_def)

lemma done_tickA:
  assumes "bossDone s"
  shows "\<not> bossAlive (tickA inp s)"
    and "bossDefeatedAtWave (tickA inp s) = wave s"
proof -
  from assms have z: "nBoss (enemies s) = 0" by (simp add: bossDone_def bossAlive_def nBoss_ex)
  have "nBoss (enemies (tickA inp s)) \<le> nBoss (enemies s)"
    using nBoss_tickA [of inp s] bossDone_not_due [OF assms] by simp
  with z have n0: "nBoss (enemies (tickA inp s)) = 0" by simp
  show "\<not> bossAlive (tickA inp s)"
    using n0 [unfolded nBoss_ex] by (simp add: bossAlive_def)
  show "bossDefeatedAtWave (tickA inp s) = wave s"
    using assms by (simp add: tickA_flags bossDone_def)
qed

lemma wave_mono_tickA: "wave s \<le> wave (tickA inp s)"
  by (simp add: wave_tickA)

lemma other_flags:
  "ev \<noteq> Start \<Longrightarrow> wave (other ev s) = wave s \<and> enemies (other ev s) = enemies s \<and>
   bossDefeatedAtWave (other ev s) = bossDefeatedAtWave s"
proof (cases ev)
  case (Choose u)
  show ?thesis by (cases u) (simp_all add: Choose)
qed simp_all

lemma wave_mono_stepA: "ev \<noteq> Start \<Longrightarrow> wave s \<le> wave (stepA ev s)"
  using other_flags [of ev s]
  by (cases ev) (simp_all add: wave_mono_tickA del: other.simps)

lemma done_stepA:
  assumes "bossDone s" and "ev \<noteq> Start" and "wave (stepA ev s) = wave s"
  shows "bossDone (stepA ev s)"
proof (cases ev)
  case (Frame inp)
  with assms(3) done_tickA [OF assms(1), of inp] show ?thesis
    by (simp add: bossDone_def)
next
  case Options
  with assms(1) show ?thesis by (simp add: bossDone_def bossAlive_def)
qed (use assms other_flags [of ev s] in \<open>simp_all add: bossDone_def bossAlive_def del: other.simps\<close>)

lemma wave_mono_foldA: "Start \<notin> set evs \<Longrightarrow> wave s \<le> wave (fold stepA evs s)"
proof (induction evs arbitrary: s)
  case Nil
  show ?case by simp
next
  case (Cons ev evs)
  from Cons.prems have ns: "ev \<noteq> Start" "Start \<notin> set evs" by auto
  have "wave s \<le> wave (stepA ev s)" using ns(1) by (rule wave_mono_stepA)
  also have "\<dots> \<le> wave (fold stepA evs (stepA ev s))" using ns(2) by (rule Cons.IH)
  finally show ?case by simp
qed

lemma done_foldA:
  "bossDone s \<Longrightarrow> Start \<notin> set evs \<Longrightarrow> wave (fold stepA evs s) = wave s \<Longrightarrow>
   bossDone (fold stepA evs s)"
proof (induction evs arbitrary: s)
  case Nil
  then show ?case by simp
next
  case (Cons ev evs)
  from Cons.prems have ns: "ev \<noteq> Start" "Start \<notin> set evs" by auto
  have a: "wave s \<le> wave (stepA ev s)" using ns by (simp add: wave_mono_stepA)
  have b: "wave (stepA ev s) \<le> wave (fold stepA evs (stepA ev s))"
    using ns by (simp add: wave_mono_foldA)
  from a b Cons.prems(3) have w: "wave (stepA ev s) = wave s" by simp
  have d: "bossDone (stepA ev s)" using Cons.prems(1) ns(1) w by (rule done_stepA)
  have "bossDone (fold stepA evs (stepA ev s))"
    using d ns(2) Cons.prems(3) w by (intro Cons.IH) simp_all
  then show ?case by simp
qed

text \<open>
  Claim C3 (first build; the second has no bosses). In every state that a session
  reaches at most one enemy is a boss, and every tick keeps it so. In a frame that runs:
  unless the wave is divisible by \<open>5\<close>, no boss is active, no boss is in the enemy list
  and this wave's boss has not been defeated, the boss-spawn step does nothing and the
  tick adds no boss; when all four hold, the step replaces the whole enemy list (which
  holds no boss) by one new boss, whose id is the counter's value, no normal enemy is
  spawned in that frame, and the resulting state holds no enemy but that boss.

  "Already defeated" is what the field \<^verbatim>\<open>bossDefeatedAtWave\<close> records: a frame in which
  a boss is left without hit points by the collision pass (and so removed by the death
  sweep) writes the current wave to the field and clears \<^verbatim>\<open>bossActive\<close>, and no boss is
  left in the list; a frame in which no boss dies leaves the field as it was. So once the
  boss of a wave is defeated, no boss is in the enemy list of any later state of the
  session for as long as the wave number stays the same, whatever frames, pauses,
  upgrades and difficulty changes follow.
\<close>

theorem boss_spawn_guarded:
  "atMostOneBoss (runA evs) \<and>
   (atMostOneBoss s \<longrightarrow> atMostOneBoss (tickA inp s)) \<and>
   (\<not> frozen s \<and>
    \<not> (wave s mod 5 = 0 \<and> \<not> bossActive s \<and> bossDefeatedAtWave s \<noteq> wave s \<and> \<not> bossAlive s) \<longrightarrow>
      bossSpawnA inp (beforeBossA inp s) = beforeBossA inp s \<and>
      nBoss (enemies (tickA inp s)) \<le> nBoss (enemies s)) \<and>
   (\<not> frozen s \<and>
    wave s mod 5 = 0 \<and> \<not> bossActive s \<and> bossDefeatedAtWave s \<noteq> wave s \<and> \<not> bossAlive s \<longrightarrow>
      map isBoss (enemies (st (bossSpawnA inp (beforeBossA inp s)))) = [True] \<and>
      map eid (enemies (st (bossSpawnA inp (beforeBossA inp s)))) = [nextId s] \<and>
      list_all isBoss (enemies (tickA inp s)) \<and> length (enemies (tickA inp s)) \<le> 1) \<and>
   (\<not> frozen s \<and> bossSlain (enemies (st (afterCollisionsA inp s))) \<longrightarrow>
      bossDefeatedAtWave (tickA inp s) = wave s \<and> \<not> bossActive (tickA inp s)) \<and>
   (\<not> (\<not> frozen s \<and> bossSlain (enemies (st (afterCollisionsA inp s)))) \<longrightarrow>
      bossDefeatedAtWave (tickA inp s) = bossDefeatedAtWave s) \<and>
   (atMostOneBoss s \<and> \<not> frozen s \<and> bossSlain (enemies (st (afterCollisionsA inp s))) \<longrightarrow>
      \<not> bossAlive (tickA inp s)) \<and>
   (bossDefeatedAtWave s = wave s \<and> \<not> bossAlive s \<and> Start \<notin> set fs \<and>
    wave (fold stepA fs s) = wave s \<longrightarrow>
      \<not> bossAlive (fold stepA fs s) \<and> bossDefeatedAtWave (fold stepA fs s) = wave s)"
proof -
  have d: "bossDue s = (wave s mod 5 = 0 \<and> \<not> bossActive s \<and> bossDefeatedAtWave s \<noteq> wave s
      \<and> \<not> bossAlive s)"
    by (simp add: bossDue_def bossWave_def)
  have 1: "atMostOneBoss (runA evs)" by (rule one_runA)
  have 2: "atMostOneBoss s \<longrightarrow> atMostOneBoss (tickA inp s)"
    by (simp add: one_tickA)
  have 3: "\<not> frozen s \<and> \<not> bossDue s \<longrightarrow>
      bossSpawnA inp (beforeBossA inp s) = beforeBossA inp s \<and>
      nBoss (enemies (tickA inp s)) \<le> nBoss (enemies s)"
    using nBoss_tickA [of inp s] by (auto simp: bossSpawnA_idle bossDue_beforeBossA)
  have 4: "\<not> frozen s \<and> bossDue s \<longrightarrow>
      map isBoss (enemies (st (bossSpawnA inp (beforeBossA inp s)))) = [True] \<and>
      map eid (enemies (st (bossSpawnA inp (beforeBossA inp s)))) = [nextId s] \<and>
      list_all isBoss (enemies (tickA inp s)) \<and> length (enemies (tickA inp s)) \<le> 1"
  proof
    assume a: "\<not> frozen s \<and> bossDue s"
    then have b: "bossDue (st (beforeBossA inp s))" by (simp add: bossDue_beforeBossA)
    show "map isBoss (enemies (st (bossSpawnA inp (beforeBossA inp s)))) = [True] \<and>
      map eid (enemies (st (bossSpawnA inp (beforeBossA inp s)))) = [nextId s] \<and>
      list_all isBoss (enemies (tickA inp s)) \<and> length (enemies (tickA inp s)) \<le> 1"
      using bossSpawnA_fires [OF b, of inp] spawned_tickA [of s inp] a
      by (simp only: beforeBossA_fields) simp
  qed
  have 5: "\<not> frozen s \<and> bossSlain (enemies (st (afterCollisionsA inp s))) \<longrightarrow>
      bossDefeatedAtWave (tickA inp s) = wave s \<and> \<not> bossActive (tickA inp s)"
    by (simp add: tickA_flags)
  have 6: "\<not> (\<not> frozen s \<and> bossSlain (enemies (st (afterCollisionsA inp s)))) \<longrightarrow>
      bossDefeatedAtWave (tickA inp s) = bossDefeatedAtWave s"
    by (simp add: tickA_flags(1))
  have 7: "atMostOneBoss s \<and> \<not> frozen s \<and> bossSlain (enemies (st (afterCollisionsA inp s))) \<longrightarrow>
      \<not> bossAlive (tickA inp s)"
    by (simp add: slain_tickA)
  have 8: "bossDefeatedAtWave s = wave s \<and> \<not> bossAlive s \<and> Start \<notin> set fs \<and>
    wave (fold stepA fs s) = wave s \<longrightarrow>
      \<not> bossAlive (fold stepA fs s) \<and> bossDefeatedAtWave (fold stepA fs s) = wave s"
  proof
    assume a: "bossDefeatedAtWave s = wave s \<and> \<not> bossAlive s \<and> Start \<notin> set fs \<and>
      wave (fold stepA fs s) = wave s"
    then have "bossDone s" by (simp add: bossDone_def)
    from done_foldA [OF this, of fs] a
    show "\<not> bossAlive (fold stepA fs s) \<and> bossDefeatedAtWave (fold stepA fs s) = wave s"
      by (simp add: bossDone_def)
  qed
  show ?thesis
    unfolding d [symmetric] using 1 2 3 4 5 6 7 8 by (intro conjI)
qed

subsection \<open>The theorems at concrete input\<close>

text \<open>The definitions to unfold when a frame is run on a concrete state.\<close>

lemmas vdefs = vec3_def lengthSq_def length_v_def multiplyScalar_def divideScalar_def
  normalize_v_def setLength_def add_v_def sub_v_def addScaledVector_def distanceTo_def
  applyEuler_def

lemmas pdefs = scoreAwardA_def xpAwardA_def scoreAwardB_def xpAwardB_def tickA_def tickB_def
  simulateA_def simulateB_def beforePickupsA_def beforePickupsB_def afterCollisionsA_def
  afterCollisionsB_def untilCollisionsA_def untilCollisionsB_def beforeBossA_def frozen_def
  frameDt_def enterA_def enterB_def movementA_def movementB_def jumpA_def bossSpawnA_def
  bossDue_def bossWave_def bossAlive_def shoot_def bulletsStep_def stepBullet_def spawnA_def
  spawnB_def spawnChance_def enemiesA_def enemiesMoveB_def enemyStepA_def leapA_def fallA_def
  bossShotA_def reloadA_def collisions_def eBulletsA_def deathSweepA_def deathSweepB_def
  contactA_def contactB_def pickupsA_def pickupsB_def hpB_def finish_def need_def clamp_def
  collect_def worldDir_def moveKeys_def start_def initialState_def startPlayer_def toPlayer_def
  seek_def rnd_def round_js_def dropA_def dropB_def stepEBullet_def

lemmas wdefs = playingState_def pausedState_def xpPickup_def nearLevelUp_def manyPickups_def
  grunt_def cornered_def lateWave_def idle_def shot_def duel_def crowd_def fire_def wounded_def
  waveFive_def bossFight_def

text \<open>Square roots and comparisons with square roots that the concrete frames meet.\<close>

lemma sqrt_quarter: "sqrt (1 / 4) = 1 / 2"
  by (rule real_sqrt_unique) (simp_all add: power2_eq_square)

lemma sqrt_lt: "0 < c \<Longrightarrow> (sqrt x < c) = (x < c * c)"
  using real_sqrt_less_iff [of x "c * c"] by simp

lemma lt_sqrt: "0 \<le> c \<Longrightarrow> (c < sqrt x) = (c * c < x)"
  using real_sqrt_less_iff [of "c * c" x] by simp

lemma sqrt_mult_lt: "0 < a \<Longrightarrow> 0 < b \<Longrightarrow> (sqrt x * a < b) = (x * (a * a) < b * b)"
proof -
  assume a: "0 < a" and b: "0 < b"
  have "(sqrt x * a < b) = (sqrt x < b / a)" using a by (simp add: field_simps)
  also have "\<dots> = (x < (b / a) * (b / a))" using a b by (simp add: sqrt_lt)
  also have "\<dots> = (x * (a * a) < b * b)" using a by (simp add: field_simps)
  finally show ?thesis .
qed

lemma lt_sqrt_mult: "0 < a \<Longrightarrow> 0 \<le> b \<Longrightarrow> (b < sqrt x * a) = (b * b < x * (a * a))"
proof -
  assume a: "0 < a" and b: "0 \<le> b"
  have "(b < sqrt x * a) = (b / a < sqrt x)" using a by (simp add: field_simps)
  also have "\<dots> = ((b / a) * (b / a) < x)" using a b by (simp add: lt_sqrt)
  also have "\<dots> = (b * b < x * (a * a))" using a by (simp add: field_simps)
  finally show ?thesis .
qed

lemma sqrt_25: "sqrt 25 = 5"
  by (rule real_sqrt_unique) simp_all

lemma sqrt_121_4: "sqrt (121 / 4) = 11 / 2"
  by (rule real_sqrt_unique) (simp_all add: power2_eq_square)

lemmas sqrts = sqrt_lt lt_sqrt sqrt_mult_lt lt_sqrt_mult sqrt_25 sqrt_121_4 sqrt_quarter

lemma cornered_flags: "playing cornered" "\<not> paused cornered" "\<not> gameOver cornered"
  by (simp_all add: wdefs pdefs)

lemma paused_flags: "paused pausedState"
  by (simp add: wdefs pdefs)

lemma cornered_tickA: "hp (player (tickA idle cornered)) = 0"
  by (simp add: wdefs pdefs vdefs Let_def cong: let_weak_cong)

lemma cornered_tickB: "hp (player (tickB idle cornered)) = 0"
  by (simp add: wdefs pdefs vdefs Let_def cong: let_weak_cong)

theorem frozen_tick_unchanged_witness:
  "paused pausedState \<and> playing cornered \<and> \<not> paused cornered \<and> \<not> gameOver cornered \<and>
   tickA idle pausedState = pausedState \<and> tickB idle pausedState = pausedState \<and>
   gameOver (tickA idle cornered) \<and> hp (player (tickA idle cornered)) = 0 \<and>
   gameOver (tickB idle cornered) \<and> hp (player (tickB idle cornered)) = 0"
  using frozen_tick_unchanged [of pausedState idle] frozen_tick_unchanged [of cornered idle]
  by (simp add: cornered_flags paused_flags cornered_tickA cornered_tickB)

lemma lateWave_fields:
  "wave (lateWave t) = 1" "time (lateWave t) = t" "\<not> frozen (lateWave t)"
  by (simp_all add: wdefs pdefs)

theorem wave_advance_witness:
  "waveInv (lateWave 25) \<and> wave (tickA idle (lateWave 25)) = 1 \<and>
   wave (tickB idle (lateWave 25)) = 1 \<and>
   waveInv (lateWave (4299 / 100)) \<and> time (tickA idle (lateWave (4299 / 100))) = 4301 / 100 \<and>
   wave (tickA idle (lateWave (4299 / 100))) = 2 \<and> wave (tickB idle (lateWave (4299 / 100))) = 2"
proof -
  have dt: "frameDt idle = 1 / 50" by (simp add: frameDt_def idle_def)
  have t: "time (tickA idle (lateWave (4299 / 100))) = 4301 / 100"
    "time (tickA idle (lateWave 25)) = 2502 / 100"
    "time (tickB idle (lateWave (4299 / 100))) = 4301 / 100"
    "time (tickB idle (lateWave 25)) = 2502 / 100"
    by (simp_all add: time_tickA time_tickB lateWave_fields dt)
  have i: "waveInv (lateWave 25)" "waveInv (lateWave (4299 / 100))"
    by (simp_all add: waveInv_def lateWave_fields)
  show ?thesis
    using wave_advance [of "[]" "lateWave 25" idle]
      wave_advance [of "[]" "lateWave (4299 / 100)" idle]
    by (auto simp add: i t lateWave_fields)
qed

theorem hp_within_bounds_witness:
  "0 \<le> hp (player cornered) \<and> hp (player cornered) \<le> maxHp (player cornered) \<and>
   0 \<le> hp (player (tickA idle cornered)) \<and>
   hp (player (tickA idle cornered)) \<le> maxHp (player (tickA idle cornered)) \<and>
   0 \<le> hp (player (tickB idle cornered)) \<and>
   hp (player (tickB idle cornered)) \<le> maxHp (player (tickB idle cornered))"
proof -
  have a: "0 \<le> hp (player cornered)" and b: "hp (player cornered) \<le> maxHp (player cornered)"
    by (simp_all add: wdefs pdefs)
  show ?thesis using a b hp_within_bounds [OF a b, of idle] by simp
qed


theorem one_level_per_tick_witness:
  "\<not> frozen manyPickups \<and> level manyPickups = 1 \<and> xp manyPickups = 9 \<and>
   level (tickA idle manyPickups) = 2 \<and> xp (tickA idle manyPickups) = 16 \<and>
   level (tickB idle manyPickups) = 2 \<and> xp (tickB idle manyPickups) = 16 \<and>
   need 2 = 16 \<and> xpAdd (simulateA idle manyPickups) = 17 \<and>
   xpAdd (simulateB idle manyPickups) = 17"
proof -
  have f: "\<not> frozen manyPickups" by (simp add: wdefs pdefs)
  have xa: "xpAdd (simulateA idle manyPickups) = 17"
    by (simp add: wdefs pdefs vdefs Let_def sqrt_quarter cong: let_weak_cong)
  have xb: "xpAdd (simulateB idle manyPickups) = 17"
    by (simp add: wdefs pdefs vdefs Let_def sqrt_quarter cong: let_weak_cong)
  have x9: "xp manyPickups = 9" "level manyPickups = 1" by (simp_all add: wdefs pdefs)
  have la: "level (tickA idle manyPickups) = 2" and lb: "level (tickB idle manyPickups) = 2"
    by (simp_all add: tickA_def tickB_def f finish_fields simulateA_fields simulateB_fields
          xa xb x9 need_def)
  show ?thesis using one_level_per_tick [of manyPickups idle] f
    by (simp add: xa xb x9 la lb need_def)
qed

theorem kills_awarded_once_witness:
  "\<not> frozen (duel 8) \<and>
   enemies (tickA idle (duel 8)) = [] \<and> score (tickA idle (duel 8)) = 15 \<and>
   xp (tickA idle (duel 8)) = 1 \<and>
   enemies (tickB idle (duel 8)) = [] \<and> score (tickB idle (duel 8)) = 15 \<and>
   xp (tickB idle (duel 8)) = 1 \<and>
   map ehp (enemies (tickA idle (duel 18))) = [8] \<and> score (tickA idle (duel 18)) = 0 \<and>
   bullets (tickA idle (duel 18)) = []"
proof -
  have f: "\<not> frozen (duel 8)" by (simp add: wdefs pdefs)
  have a: "enemies (tickA idle (duel 8)) = [] \<and> score (tickA idle (duel 8)) = 15 \<and>
      xp (tickA idle (duel 8)) = 1"
    by (simp add: wdefs pdefs vdefs Let_def sqrts cong: let_weak_cong)
  have b: "enemies (tickB idle (duel 8)) = [] \<and> score (tickB idle (duel 8)) = 15 \<and>
      xp (tickB idle (duel 8)) = 1"
    by (simp add: wdefs pdefs vdefs Let_def sqrts cong: let_weak_cong)
  have c: "map ehp (enemies (tickA idle (duel 18))) = [8] \<and> score (tickA idle (duel 18)) = 0 \<and>
      bullets (tickA idle (duel 18)) = []"
    by (simp add: wdefs pdefs vdefs Let_def sqrts cong: let_weak_cong)
  show ?thesis using f kills_awarded_once [OF f, of idle] a b c by simp
qed

theorem boss_spawn_guarded_witness:
  "\<not> frozen waveFive \<and> wave waveFive mod 5 = 0 \<and> \<not> bossActive waveFive \<and>
   bossDefeatedAtWave waveFive \<noteq> wave waveFive \<and> \<not> bossAlive waveFive \<and>
   atMostOneBoss (runA []) \<and> atMostOneBoss waveFive \<and> atMostOneBoss (tickA idle waveFive) \<and>
   map isBoss (enemies (tickA idle waveFive)) = [True] \<and>
   map eid (enemies (tickA idle waveFive)) = [2] \<and>
   bossActive (tickA idle waveFive) \<and>
   map eid (enemies (tickA idle (tickA idle waveFive))) = [2] \<and>
   nBoss (enemies (tickA idle (duel 18))) = 0 \<and>
   \<not> frozen bossFight \<and> atMostOneBoss bossFight \<and>
   bossSlain (enemies (st (afterCollisionsA idle bossFight))) \<and>
   enemies (tickA idle bossFight) = [] \<and> score (tickA idle bossFight) = 200 \<and>
   bossDefeatedAtWave (tickA idle bossFight) = 5 \<and> \<not> bossActive (tickA idle bossFight) \<and>
   wave (tickA idle bossFight) = 5 \<and> \<not> bossAlive (tickA idle bossFight) \<and>
   wave (fold stepA [Frame idle, TogglePause, TogglePause, Frame idle] (tickA idle bossFight))
     = 5 \<and>
   \<not> bossAlive
       (fold stepA [Frame idle, TogglePause, TogglePause, Frame idle] (tickA idle bossFight))"
proof -
  let ?t = "tickA idle bossFight"
  let ?fs = "[Frame idle, TogglePause, TogglePause, Frame idle]"
  have a: "atMostOneBoss waveFive"
    by (simp add: atMostOneBoss_def nBoss_def wdefs pdefs)
  have b: "map isBoss (enemies (tickA idle waveFive)) = [True] \<and>
      map eid (enemies (tickA idle waveFive)) = [2] \<and> bossActive (tickA idle waveFive)"
    by (simp add: wdefs pdefs vdefs Let_def sqrts cong: let_weak_cong)
  have c: "map eid (enemies (tickA idle (tickA idle waveFive))) = [2]"
    by (simp add: wdefs pdefs vdefs Let_def sqrts cong: let_weak_cong)
  have d: "nBoss (enemies (tickA idle (duel 18))) = 0"
    by (simp add: nBoss_def wdefs pdefs vdefs Let_def sqrts cong: let_weak_cong)
  have e: "\<not> frozen waveFive" "wave waveFive mod 5 = 0" "\<not> bossActive waveFive"
    "bossDefeatedAtWave waveFive \<noteq> wave waveFive" "\<not> bossAlive waveFive"
    by (simp_all add: wdefs pdefs)
  have f: "\<not> frozen bossFight" "atMostOneBoss bossFight" "wave bossFight = 5"
    by (simp_all add: atMostOneBoss_def nBoss_def wdefs pdefs)
  have g: "bossSlain (enemies (st (afterCollisionsA idle bossFight)))"
    by (simp add: bossSlain_def wdefs pdefs vdefs Let_def sqrts cong: let_weak_cong)
  have h: "enemies ?t = [] \<and> score ?t = 200 \<and> wave ?t = 5"
    by (simp add: wdefs pdefs vdefs Let_def sqrts cong: let_weak_cong)
  have i: "wave (fold stepA ?fs ?t) = 5"
    by (simp add: wdefs pdefs vdefs Let_def sqrts cong: let_weak_cong)
  have n: "Start \<notin> set ?fs" by simp
  from boss_spawn_guarded [of "[]" bossFight idle "[]"] f g
  have j: "bossDefeatedAtWave ?t = 5" "\<not> bossActive ?t" "\<not> bossAlive ?t"
    by simp_all
  from boss_spawn_guarded [of "[]" ?t idle ?fs] h i j n
  have k: "\<not> bossAlive (fold stepA ?fs ?t)" by simp
  have l: "atMostOneBoss (runA []) \<and> atMostOneBoss (tickA idle waveFive)"
    using boss_spawn_guarded [of "[]" waveFive idle "[]"] a by simp
  from a b c d e f g h i j k l show ?thesis by simp
qed

subsection \<open>Where the code departs from the claims\<close>

text \<open>
  Claim C8 as written fails in the first build. The frame on \<open>cornered\<close> ends the game
  at \<open>0\<close> hit points; the "Options" button of the game-over panel clears the flag and
  pauses, the key P resumes. The state \<open>revived\<close> so reached has \<open>0\<close> hit points but is
  playing, not paused and not flagged, so the next frame runs: the clock advances and the
  state is not returned unchanged.
\<close>

theorem game_over_by_hp_counterexample:
  "gameOver (tickA idle cornered) \<and> hp (player revived) \<le> 0 \<and> playing revived \<and>
   \<not> paused revived \<and> \<not> gameOver revived \<and>
   time (tickA idle revived) = time revived + 1 / 50 \<and> tickA idle revived \<noteq> revived"
proof -
  have a: "gameOver (tickA idle cornered)" "playing (tickA idle cornered)"
    by (simp_all add: wdefs pdefs vdefs Let_def cong: let_weak_cong)
  have r: "hp (player revived) = 0" "playing revived" "\<not> paused revived" "\<not> gameOver revived"
    by (simp_all add: revived_def a cornered_tickA)
  then have f: "\<not> frozen revived" by (simp add: frozen_def)
  have t: "time (tickA idle revived) = time revived + 1 / 50"
    using f by (simp add: time_tickA frameDt_def idle_def)
  then have "tickA idle revived \<noteq> revived" by auto
  with a r t show ?thesis by simp
qed

text \<open>
  Claim C1 fails on both builds: the inner loop of the collision pass marks a bullet
  without pierce left (\<^verbatim>\<open>b.life = -1\<close>) and goes on to the next enemy, so the bullet
  damages every live enemy in reach in that frame. Here a bullet with pierce \<open>0\<close> and
  damage \<open>10\<close> has two enemies of \<open>18\<close> hit points in reach: both end the frame at
  \<open>8\<close>, and the bullet is removed.
\<close>

theorem pierce_zero_hits_two:
  "map pierceLeft (bullets crowd) = [0] \<and> map ehp (enemies crowd) = [18, 18] \<and>
   map ehp (enemies (tickA idle crowd)) = [8, 8] \<and> bullets (tickA idle crowd) = [] \<and>
   map ehp (enemies (tickB idle crowd)) = [8, 8] \<and> bullets (tickB idle crowd) = []"
  by (simp add: wdefs pdefs vdefs Let_def sqrts cong: let_weak_cong)

text \<open>
  Claim C2 fails on the second build: the pickup of a dead enemy at index \<open>i\<close> gets the
  id \<^verbatim>\<open>s.nextId + i\<close> and the counter is not advanced. A bullet kills the only
  enemy: the pickup gets id \<open>4\<close> and the counter stays at \<open>4\<close>; in the next frame the
  player fires and the new bullet gets id \<open>4\<close> too, while the pickup is still there. In
  the first build, which draws the pickup's id with \<^verbatim>\<open>s.nextId++\<close>, the same two
  frames give the pickup \<open>4\<close> and the bullet \<open>5\<close>.
\<close>

theorem pickup_id_reused:
  "nextId (duel 8) = 4 \<and>
   nextId (tickB idle (duel 8)) = 4 \<and> map pid (pickups (tickB idle (duel 8))) = [4] \<and>
   map bid (bullets (tickB fire (tickB idle (duel 8)))) = [4] \<and>
   map pid (pickups (tickB fire (tickB idle (duel 8)))) = [4] \<and>
   nextId (tickA idle (duel 8)) = 5 \<and> map pid (pickups (tickA idle (duel 8))) = [4] \<and>
   map bid (bullets (tickA fire (tickA idle (duel 8)))) = [5] \<and>
   map pid (pickups (tickA fire (tickA idle (duel 8)))) = [4]"
  by (simp add: wdefs pdefs vdefs Let_def sqrts cong: let_weak_cong)

text \<open>
  Claim C9 fails on the first build: \<^verbatim>\<open>newHp\<close> is computed before the pickups are
  swept, and the returned player takes \<^verbatim>\<open>hp: newHp\<close>, so what a heart (or a shield)
  writes to \<^verbatim>\<open>s.player.hp\<close> is lost. With \<open>50\<close> of \<open>100\<close> hit points and a heart at
  distance \<open>0.5\<close>, the first build removes the pickup and leaves the hit points at
  \<open>50\<close>; the second build, which computes \<^verbatim>\<open>newHp\<close> after the pickups, gives \<open>65\<close>.
\<close>

theorem heart_heal_lost:
  "hp (player wounded) = 50 \<and> maxHp (player wounded) = 100 \<and>
   map ptype (pickups wounded) = [Heart] \<and>
   distanceTo (ppos (hd (pickups wounded))) (pos (player wounded)) = 1 / 2 \<and>
   hp (player (tickA idle wounded)) = 50 \<and> pickups (tickA idle wounded) = [] \<and>
   hp (player (tickB idle wounded)) = 65 \<and> pickups (tickB idle wounded) = []"
  by (simp add: wdefs pdefs vdefs Let_def sqrts cong: let_weak_cong)

end
